theory Spec2Isabelle
  imports Main "HOL-Library.Sublist" "HOL-Library.Word"
begin

section \<open>The evaluator of lib/visitor/evaluator.js\<close>

text \<open>
  The evaluator walks a syntax tree of mutable JavaScript objects and rewrites it in
  place. Nodes are therefore kept in an explicit store: a reference is an index into the
  list of allocated objects, a child slot of a node holds a JavaScript value (a reference,
  \<open>undefined\<close>, a native function, or an object of JavaScript that is not a node), and
  every method of the evaluator takes the
  evaluator's state (its fields and the store) and returns either the thrown error or the
  returned value, each with the state reached.
\<close>

subsection \<open>Values, nodes and the store\<close>

type_synonym ref = nat

datatype val = Undefined | Ref ref | Native string | Object string

text \<open>
  The node classes of \<open>require('../nodes')\<close> that the evaluator has a visit method for.
  The value of a \<open>Unit\<close> is a JavaScript number; the model keeps the integers.
\<close>

datatype node =
    Null
  | Boolean bool
  | Unit int string
  | String string
  | Color string
  | HSLA string
  | Literal string
  | Charset string
  | Function string val val
  | Ident string val
  | Expression "val list"
  | Group "val list"
  | BinOp string val val
  | UnaryOp string val
  | Ternary val val val
  | Property string val
  | Selector string val
  | Block val "val list"
  | Root "val list"
  | Call string val
  | Import string

text \<open>
  Field order: \<open>Function name params block\<close>, \<open>Ident name val\<close>, \<open>Expression nodes\<close>,
  \<open>Group nodes\<close>, \<open>BinOp op left right\<close>, \<open>UnaryOp op expr\<close>,
  \<open>Ternary cond trueExpr falseExpr\<close>, \<open>Property name expr\<close>, \<open>Selector val block\<close>,
  \<open>Block parent nodes\<close>, \<open>Root nodes\<close>, \<open>Call name args\<close>, \<open>Import path\<close>.
\<close>

record obj =
  lineno :: "nat option"
  source :: "string option"
  node :: node

text \<open>
  Modelled from the spec: the frame and scope of lib/stack (not among the sources). A frame
  owns one scope, a mapping from names to bound nodes where the last write wins, and a
  back-reference to its block. A name that is not bound reads as \<open>undefined\<close>.
\<close>

record frame =
  scope :: "string \<Rightarrow> val"
  block :: val

record error =
  name :: string
  message :: string
  str :: "string option"
  stylusStack :: "string option"

text \<open>
  The fields of the evaluator object, and the store. The stack is a list of frames whose
  head is the current frame. \<open>functions_table\<close> holds the own properties of the object
  \<open>this.functions\<close> (\<open>None\<close> for a name that is not an own property), \<open>return\<close> is
  \<open>this.return\<close>; \<open>calling\<close> and \<open>importPath\<close> are \<open>None\<close> while unset or null, and
  \<open>rootIndex\<close> is \<open>None\<close> until visitRoot sets it.
\<close>

record evaluator =
  heap :: "obj list"
  stack :: "frame list"
  return :: bool
  calling :: "string option"
  importPath :: "string option"
  rootIndex :: "nat option"
  paths :: "string list"
  functions_table :: "string \<Rightarrow> val option"
  root :: val
  lineno :: "nat option"

type_synonym 'a result = "(error \<times> evaluator) + ('a \<times> evaluator)"

type_synonym visitor = "evaluator \<Rightarrow> val \<Rightarrow> val result"

definition Error :: "string \<Rightarrow> error" where
  "Error m = \<lparr>name = ''Error'', message = m, str = None, stylusStack = None\<rparr>"

text \<open>
  The TypeError JavaScript throws when a property of \<open>undefined\<close> is read or called.
  Objects never change class, so a read of a field on an object of another class cannot
  arise from dispatch; the model gives it the same error.
\<close>

definition TypeError :: error where
  "TypeError = \<lparr>name = ''TypeError'', message = ''undefined has no properties'',
     str = None, stylusStack = None\<rparr>"

text \<open>
  Recursion through visit and the loop of visitRoot are bounded by fuel. Running out of it
  is reported as an error of this name; it marks that the bound was too small, where the
  JavaScript would still be running (or overflow its call stack).
\<close>

definition OutOfFuel :: error where
  "OutOfFuel = \<lparr>name = ''OutOfFuel'', message = [], str = None, stylusStack = None\<rparr>"

text \<open>The singletons \<open>nodes.null\<close>, \<open>nodes.true\<close> and \<open>nodes.false\<close> live at fixed addresses.\<close>

definition nodes_null :: val where "nodes_null = Ref 0"
definition nodes_true :: val where "nodes_true = Ref 1"
definition nodes_false :: val where "nodes_false = Ref 2"

definition get :: "evaluator \<Rightarrow> val \<Rightarrow> node option" where
  "get s v = (case v of
      Ref r \<Rightarrow> (if r < length (heap s) then Some (node (heap s ! r)) else None)
    | _ \<Rightarrow> None)"

definition put :: "evaluator \<Rightarrow> ref \<Rightarrow> node \<Rightarrow> evaluator" where
  "put s r n = s\<lparr>heap := (heap s)[r := (heap s ! r)\<lparr>node := n\<rparr>]\<rparr>"

text \<open>\<open>new nodes.X(...)\<close>: a fresh object at the end of the store.\<close>

definition alloc :: "evaluator \<Rightarrow> node \<Rightarrow> ref \<times> evaluator" where
  "alloc s n = (length (heap s),
     s\<lparr>heap := heap s @ [\<lparr>obj.lineno = None, source = None, node = n\<rparr>]\<rparr>)"

text \<open>The \<open>nodes\<close> array of the classes that have one.\<close>

fun nodes_of :: "node \<Rightarrow> val list option" where
  "nodes_of (Expression ns) = Some ns"
| "nodes_of (Group ns) = Some ns"
| "nodes_of (Block p ns) = Some ns"
| "nodes_of (Root ns) = Some ns"
| "nodes_of _ = None"

fun with_nodes :: "node \<Rightarrow> val list \<Rightarrow> node" where
  "with_nodes (Expression _) ns = Expression ns"
| "with_nodes (Group _) ns = Group ns"
| "with_nodes (Block p _) ns = Block p ns"
| "with_nodes (Root _) ns = Root ns"
| "with_nodes n ns = n"

text \<open>
  JavaScript array access: a read past the end gives \<open>undefined\<close>, a write past the end
  extends the array.
\<close>

definition index :: "val list \<Rightarrow> nat \<Rightarrow> val" where
  "index ns i = (if i < length ns then ns ! i else Undefined)"

definition assign_index :: "val list \<Rightarrow> nat \<Rightarrow> val \<Rightarrow> val list" where
  "assign_index ns i v =
     (if i < length ns then ns[i := v]
      else ns @ replicate (i - length ns) Undefined @ [v])"

subsection \<open>The lexical environment\<close>

text \<open>
  Modelled from the spec: \<open>Stack.prototype.lookup\<close> of lib/stack (not among the sources)
  scans the frames from the current one outwards and returns the first bound node, or
  \<open>undefined\<close>.
\<close>

primrec lookup :: "frame list \<Rightarrow> string \<Rightarrow> val" where
  "lookup [] nm = Undefined"
| "lookup (f # fs) nm = (if scope f nm \<noteq> Undefined then scope f nm else lookup fs nm)"

text \<open>Modelled from the spec: \<open>new Frame(block)\<close> has an empty scope.\<close>

definition Frame :: "val \<Rightarrow> frame" where
  "Frame b = \<lparr>scope = (\<lambda>nm. Undefined), block = b\<rparr>"

text \<open>
  Modelled from the spec: \<open>this.stack.currentFrame.scope.add(ident)\<close> binds the
  identifier's name to its value in the scope of the current frame, over any earlier
  binding of the name there.
\<close>

definition scope_add :: "evaluator \<Rightarrow> string \<Rightarrow> val \<Rightarrow> unit result" where
  "scope_add s nm v = (case stack s of
      [] \<Rightarrow> Inl (TypeError, s)
    | f # fs \<Rightarrow> Inr ((), s\<lparr>stack := f\<lparr>scope := (scope f)(nm := v)\<rparr> # fs\<rparr>))"

text \<open>
  Modelled from the spec: \<open>this.stack.push(frame)\<close> and \<open>this.stack.pop()\<close> of lib/stack
  (not among the sources) work at the top of the stack only.
\<close>

definition push :: "evaluator \<Rightarrow> frame \<Rightarrow> evaluator" where
  "push s f = s\<lparr>stack := f # stack s\<rparr>"

definition pop :: "evaluator \<Rightarrow> evaluator" where
  "pop s = s\<lparr>stack := tl (stack s)\<rparr>"

subsection \<open>invoke\<close>

text \<open>\<open>this.stack.currentFrame.block.nodes.push(node)\<close>\<close>

definition push_node :: "evaluator \<Rightarrow> val \<Rightarrow> unit result" where
  "push_node s n = (case stack s of
      [] \<Rightarrow> Inl (TypeError, s)
    | f # fs \<Rightarrow> (case block f of
        Ref b \<Rightarrow> (case get s (Ref b) of
            None \<Rightarrow> Inl (TypeError, s)
          | Some bn \<Rightarrow> (case nodes_of bn of
              None \<Rightarrow> Inl (TypeError, s)
            | Some ns \<Rightarrow> Inr ((), put s b (with_nodes bn (ns @ [n])))))
      | _ \<Rightarrow> Inl (TypeError, s)))"

primrec forEach_push :: "val list \<Rightarrow> evaluator \<Rightarrow> unit result" where
  "forEach_push [] s = Inr ((), s)"
| "forEach_push (n # ns) s = (case push_node s n of
      Inl e \<Rightarrow> Inl e
    | Inr (u, s') \<Rightarrow> forEach_push ns s')"

definition invoke :: "evaluator \<Rightarrow> val \<Rightarrow> val result" where
  "invoke s body = (case get s body of
      None \<Rightarrow> Inl (TypeError, s)
    | Some b \<Rightarrow> (case nodes_of b of
        None \<Rightarrow> Inl (TypeError, s)
      | Some ns \<Rightarrow>
          if return s then Inr (index ns (length ns - 1), s)
          else (case forEach_push ns s of
              Inl e \<Rightarrow> Inl e
            | Inr (u, s') \<Rightarrow> Inr (nodes_null, s'))))"

subsection \<open>The collaborators\<close>

text \<open>
  Modelled from the spec: the methods of the node classes, the built-in functions, the
  parser, the path search and the file system are not among the sources. The evaluator
  takes them as parameters, with the contracts of the spec's interface section:
  \<^item> \<open>first\<close>, \<open>toBoolean\<close>, \<open>coerce\<close>, \<open>operate\<close>, \<open>clone\<close>, \<open>toString\<close>: the capability
    set of a node, on the node at a reference. \<open>coerce\<close>, \<open>operate\<close> and \<open>clone\<close> may
    throw, and may allocate;
  \<^item> \<open>assertType_message\<close>: the message of the error \<open>utils.assertType\<close> throws;
  \<^item> \<open>bifs\<close>: the own properties of the builtin registry, the object that
    \<open>require('../functions')\<close> exports (\<open>None\<close> for a name that is not an own property),
    and \<open>apply_native\<close>: the call of a native function on its positional arguments;
  \<^item> \<open>utils_lookup\<close>: the path search; \<open>readFileSync\<close> and \<open>dirname\<close>: of fs and path;
  \<^item> \<open>parse\<close>: the parser, given the source text, the file name and the first free
    address, returns the objects it allocates there and its top-level statements;
  \<^item> \<open>stack_toString\<close>: the formatted trace of the frame stack.
\<close>

record collab =
  first :: "obj list \<Rightarrow> ref \<Rightarrow> val"
  toBoolean :: "obj list \<Rightarrow> ref \<Rightarrow> bool"
  coerce :: "obj list \<Rightarrow> ref \<Rightarrow> val \<Rightarrow> error + val \<times> obj list"
  operate :: "obj list \<Rightarrow> ref \<Rightarrow> string \<Rightarrow> val \<Rightarrow> error + val \<times> obj list"
  clone :: "obj list \<Rightarrow> ref \<Rightarrow> error + val \<times> obj list"
  toString :: "obj list \<Rightarrow> val \<Rightarrow> string"
  assertType_message :: "obj list \<Rightarrow> val \<Rightarrow> string"
  bifs :: "string \<Rightarrow> val option"
  apply_native :: "string \<Rightarrow> obj list \<Rightarrow> val list \<Rightarrow> error + val \<times> obj list"
  utils_lookup :: "string \<Rightarrow> string list \<Rightarrow> string option"
  readFileSync :: "string \<Rightarrow> error + string"
  parse :: "string \<Rightarrow> string \<Rightarrow> nat \<Rightarrow> error + obj list \<times> val list"
  dirname :: "string \<Rightarrow> string"
  stack_toString :: "obj list \<Rightarrow> frame list \<Rightarrow> string"

text \<open>The outcome of a collaborator that works on the store, as an outcome of the evaluator.\<close>

definition lift :: "evaluator \<Rightarrow> error + val \<times> obj list \<Rightarrow> val result" where
  "lift s x = (case x of
      Inl e \<Rightarrow> Inl (e, s)
    | Inr (v, h) \<Rightarrow> Inr (v, s\<lparr>heap := h\<rparr>))"

text \<open>JavaScript truthiness of a string that may be undefined.\<close>

definition truthy :: "string option \<Rightarrow> bool" where
  "truthy x = (case x of None \<Rightarrow> False | Some t \<Rightarrow> t \<noteq> [])"

text \<open>
  \<open>x.first\<close>: a TypeError (\<open>None\<close>) on \<open>undefined\<close>; a native function and an object
  that is not a node have no such property.
\<close>

definition first_of :: "collab \<Rightarrow> obj list \<Rightarrow> val \<Rightarrow> val option" where
  "first_of c h x = (case x of
      Undefined \<Rightarrow> None
    | Ref r \<Rightarrow> Some (first c h r)
    | Native f \<Rightarrow> Some Undefined
    | Object ob \<Rightarrow> Some Undefined)"

definition instanceof_Expression :: "evaluator \<Rightarrow> val \<Rightarrow> bool" where
  "instanceof_Expression s x = (case get s x of Some (Expression ns) \<Rightarrow> True | _ \<Rightarrow> False)"

definition instanceof_Function :: "evaluator \<Rightarrow> val \<Rightarrow> bool" where
  "instanceof_Function s x = (case get s x of Some (Function nm ps b) \<Rightarrow> True | _ \<Rightarrow> False)"

definition instanceof_Null :: "evaluator \<Rightarrow> val \<Rightarrow> bool" where
  "instanceof_Null s x = (case get s x of Some Null \<Rightarrow> True | _ \<Rightarrow> False)"

subsection \<open>Calls\<close>

text \<open>
  \<open>this.functions\<close> is \<open>options.functions || {}\<close> and \<open>bifs\<close> is the exports object of a
  module: plain objects of JavaScript. The read \<open>obj[name]\<close> of a plain object answers the
  own property of that name and, when there is none, the member of that name that the
  object inherits from \<open>Object.prototype\<close>: the functions \<open>constructor\<close> (which is
  \<open>Object\<close>), \<open>toString\<close>, \<open>toLocaleString\<close>, \<open>valueOf\<close>, \<open>hasOwnProperty\<close>,
  \<open>isPrototypeOf\<close>, \<open>propertyIsEnumerable\<close> and the four accessor helpers of V8, and
  \<open>__proto__\<close>, which is the object \<open>Object.prototype\<close> itself. Every other name reads as
  \<open>undefined\<close>.
\<close>

definition Object_prototype :: "string \<Rightarrow> val" where
  "Object_prototype nm =
     (if nm = ''constructor'' then Native ''Object''
      else if nm \<in> set [''toString'', ''toLocaleString'', ''valueOf'', ''hasOwnProperty'',
                        ''isPrototypeOf'', ''propertyIsEnumerable'', ''__defineGetter__'',
                        ''__defineSetter__'', ''__lookupGetter__'', ''__lookupSetter__'']
      then Native (''Object.prototype.'' @ nm)
      else if nm = ''__proto__'' then Object ''Object.prototype''
      else Undefined)"

definition read_property :: "(string \<Rightarrow> val option) \<Rightarrow> string \<Rightarrow> val" where
  "read_property own nm = (case own nm of Some x \<Rightarrow> x | None \<Rightarrow> Object_prototype nm)"

text \<open>
  \<open>this.stack.lookup(name) || this.functions[name] || bifs[name]\<close>: of the values of
  the model only \<open>undefined\<close> is falsy.
\<close>

definition lookupFunction :: "collab \<Rightarrow> evaluator \<Rightarrow> string \<Rightarrow> val" where
  "lookupFunction c s nm =
     (if lookup (stack s) nm \<noteq> Undefined then lookup (stack s) nm
      else if read_property (functions_table s) nm \<noteq> Undefined
           then read_property (functions_table s) nm
      else read_property (bifs c) nm)"

definition literalCall :: "visitor \<Rightarrow> evaluator \<Rightarrow> ref \<Rightarrow> val result" where
  "literalCall v s call = (case get s (Ref call) of
      Some (Call nm args) \<Rightarrow> (case v s args of
          Inl e \<Rightarrow> Inl e
        | Inr (a, s1) \<Rightarrow> (case get s1 (Ref call) of
              Some (Call nm1 args1) \<Rightarrow> Inr (Ref call, put s1 call (Call nm1 a))
            | _ \<Rightarrow> Inl (TypeError, s1)))
    | _ \<Rightarrow> Inl (TypeError, s))"

definition invokeBuiltin :: "collab \<Rightarrow> evaluator \<Rightarrow> string \<Rightarrow> val \<Rightarrow> val result" where
  "invokeBuiltin c s fn args = (case get s args of
      None \<Rightarrow> Inl (TypeError, s)
    | Some a \<Rightarrow> (case nodes_of a of
        None \<Rightarrow> Inl (TypeError, s)
      | Some ns \<Rightarrow> (case those (map (first_of c (heap s)) ns) of
          None \<Rightarrow> Inl (TypeError, s)
        | Some firsts \<Rightarrow> (case apply_native c fn (heap s) firsts of
            Inl e \<Rightarrow> Inl (e, s)
          | Inr (body, h) \<Rightarrow>
              (let s1 = s\<lparr>heap := h\<rparr> in
               if instanceof_Expression s1 body then invoke s1 body
               else (case alloc s1 (Expression [body]) of
                   (expr, s2) \<Rightarrow> invoke s2 (Ref expr)))))))"

text \<open>
  The body of the \<open>forEach\<close> over \<open>fn.params.nodes\<close> in invokeFunction, from parameter
  number \<open>i\<close> on.
\<close>

primrec bind_params ::
  "collab \<Rightarrow> val \<Rightarrow> val \<Rightarrow> val list \<Rightarrow> nat \<Rightarrow> evaluator \<Rightarrow> unit result" where
  "bind_params c fn args [] i s = Inr ((), s)"
| "bind_params c fn args (p # ps) i s = (case get s args of
      None \<Rightarrow> Inl (TypeError, s)
    | Some a \<Rightarrow> (case nodes_of a of
        None \<Rightarrow> Inl (TypeError, s)
      | Some as \<Rightarrow> (case (p, get s p) of
          (Ref pr, Some (Ident nm dflt)) \<Rightarrow>
            (let val = (if index as i \<noteq> Undefined then index as i else dflt) in
             case clone c (heap s) pr of
               Inl e \<Rightarrow> Inl (e, s)
             | Inr (cl, h1) \<Rightarrow>
                 (let s1 = s\<lparr>heap := h1\<rparr> in
                  case (cl, get s1 cl) of
                    (Ref cr, Some (Ident cnm cval)) \<Rightarrow>
                      (let s2 = put s1 cr (Ident cnm val) in
                       if instanceof_Null s2 val
                       then Inl (Error (''argument '' @ toString c (heap s2) cl
                                 @ '' required for '' @ toString c (heap s2) fn), s2)
                       else (case scope_add s2 cnm val of
                           Inl e \<Rightarrow> Inl e
                         | Inr (u, s3) \<Rightarrow> bind_params c fn args ps (Suc i) s3))
                  | _ \<Rightarrow> Inl (TypeError, s1)))
        | _ \<Rightarrow> Inl (TypeError, s))))"

text \<open>\<open>body.parent\<close> and \<open>body.parent = block\<close>, on a body of any class.\<close>

definition parent_of :: "node \<Rightarrow> val" where
  "parent_of n = (case n of Block p ns \<Rightarrow> p | _ \<Rightarrow> Undefined)"

definition with_parent :: "node \<Rightarrow> val \<Rightarrow> node" where
  "with_parent n p = (case n of Block p0 ns \<Rightarrow> Block p ns | _ \<Rightarrow> n)"

definition invokeFunction :: "collab \<Rightarrow> visitor \<Rightarrow> evaluator \<Rightarrow> val \<Rightarrow> val \<Rightarrow> val result" where
  "invokeFunction c v s fn args = (case get s fn of
      Some (Function fname params (Ref b)) \<Rightarrow> (case clone c (heap s) b of
          Inl e \<Rightarrow> Inl (e, s)
        | Inr (body, h1) \<Rightarrow>
            (let s1 = s\<lparr>heap := h1\<rparr> in
             case (body, get s1 body) of
               (Ref bd, Some bn) \<Rightarrow> (case alloc s1 (Block (parent_of bn) []) of
                   (blk, s2) \<Rightarrow>
                     (let s3 = put s2 bd (with_parent bn (Ref blk));
                          s4 = push s3 (Frame (Ref blk))
                      in case get s4 params of
                           None \<Rightarrow> Inl (TypeError, s4)
                         | Some pn \<Rightarrow> (case nodes_of pn of
                             None \<Rightarrow> Inl (TypeError, s4)
                           | Some ps \<Rightarrow> (case bind_params c fn args ps 0 s4 of
                               Inl e \<Rightarrow> Inl e
                             | Inr (u, s5) \<Rightarrow> (case v s5 body of
                                 Inl e \<Rightarrow> Inl e
                               | Inr (body', s6) \<Rightarrow> invoke (pop s6) body')))))
             | _ \<Rightarrow> Inl (TypeError, s1)))
    | _ \<Rightarrow> Inl (TypeError, s))"

definition visitCall :: "collab \<Rightarrow> visitor \<Rightarrow> evaluator \<Rightarrow> ref \<Rightarrow> val result" where
  "visitCall c v s call = (case get s (Ref call) of
      Some (Call nm args0) \<Rightarrow>
        (let fn = lookupFunction c s nm in
         if fn = Undefined then literalCall v s call
         else
           (let s1 = s\<lparr>calling := Some nm\<rparr>;
                fn1 = (if instanceof_Expression s1 fn
                       then (case fn of Ref r \<Rightarrow> first c (heap s1) r | _ \<Rightarrow> fn)
                       else fn);
                saved = return s1
            in case v (s1\<lparr>return := True\<rparr>) args0 of
                 Inl e \<Rightarrow> Inl e
               | Inr (args, s2) \<Rightarrow>
                   (let s3 = s2\<lparr>return := saved\<rparr> in
                    case fn1 of
                      Native f \<Rightarrow> invokeBuiltin c s3 f args
                    | _ \<Rightarrow> if instanceof_Function s3 fn1
                           then invokeFunction c v s3 fn1 args
                           else Inr (Undefined, s3))))
    | _ \<Rightarrow> Inl (TypeError, s))"

subsection \<open>Identifiers and operators\<close>

definition visitIdent :: "visitor \<Rightarrow> evaluator \<Rightarrow> ref \<Rightarrow> val result" where
  "visitIdent v s ident = (case get s (Ref ident) of
      Some (Ident nm val) \<Rightarrow>
        if val = nodes_null
        then (let found = lookup (stack s) nm in
              if found \<noteq> Undefined then v s found else Inr (Ref ident, s))
        else
          (let saved = return s in
           case v (s\<lparr>return := True\<rparr>) val of
             Inl e \<Rightarrow> Inl e
           | Inr (x, s1) \<Rightarrow> (case get s1 (Ref ident) of
                 Some (Ident nm1 val1) \<Rightarrow>
                   (let s2 = (put s1 ident (Ident nm1 x))\<lparr>return := saved\<rparr> in
                    case scope_add s2 nm1 x of
                      Inl e \<Rightarrow> Inl e
                    | Inr (u, s3) \<Rightarrow> Inr (x, s3))
               | _ \<Rightarrow> Inl (TypeError, s1)))
    | _ \<Rightarrow> Inl (TypeError, s))"

definition isDefined :: "collab \<Rightarrow> evaluator \<Rightarrow> val \<Rightarrow> val result" where
  "isDefined c s n = (case get s n of
      Some (Ident nm val) \<Rightarrow>
        Inr (if lookup (stack s) nm \<noteq> Undefined then nodes_true else nodes_false, s)
    | _ \<Rightarrow> Inl (Error (''invalid '' @ [CHR 0x22] @ ''is defined'' @ [CHR 0x22]
                 @ '' check on non-variable '' @ toString c (heap s) n), s))"

text \<open>\<open>x.coerce(y)\<close> and \<open>x.operate(op, y)\<close>: a TypeError unless \<open>x\<close> is a node.\<close>

definition coerce_of :: "collab \<Rightarrow> evaluator \<Rightarrow> val \<Rightarrow> val \<Rightarrow> val result" where
  "coerce_of c s x y = (case x of
      Ref r \<Rightarrow> lift s (coerce c (heap s) r y)
    | _ \<Rightarrow> Inl (TypeError, s))"

definition operate_of :: "collab \<Rightarrow> evaluator \<Rightarrow> val \<Rightarrow> string \<Rightarrow> val \<Rightarrow> val result" where
  "operate_of c s x op y = (case x of
      Ref r \<Rightarrow> lift s (operate c (heap s) r op y)
    | _ \<Rightarrow> Inl (TypeError, s))"

definition visitBinOp :: "collab \<Rightarrow> visitor \<Rightarrow> evaluator \<Rightarrow> ref \<Rightarrow> val result" where
  "visitBinOp c v s binop = (case get s (Ref binop) of
      Some (BinOp op left0 right0) \<Rightarrow>
        if op = ''is defined'' then isDefined c s left0
        else
          (let saved = return s in
           case v (s\<lparr>return := True\<rparr>) left0 of
             Inl e \<Rightarrow> Inl e
           | Inr (l, s1) \<Rightarrow> (case first_of c (heap s1) l of
               None \<Rightarrow> Inl (TypeError, s1)
             | Some left \<Rightarrow> (case get s1 (Ref binop) of
                 Some (BinOp op1 left1 right1) \<Rightarrow> (case v s1 right1 of
                     Inl e \<Rightarrow> Inl e
                   | Inr (r, s2) \<Rightarrow> (case first_of c (heap s2) r of
                       None \<Rightarrow> Inl (TypeError, s2)
                     | Some right \<Rightarrow>
                         (let s3 = s2\<lparr>return := saved\<rparr> in
                          case (if op \<in> set [''||'', ''&&'', ''is a'']
                                then Inr (right, s3)
                                else coerce_of c s3 left right) of
                            Inl e \<Rightarrow> Inl e
                          | Inr (right', s4) \<Rightarrow> (case operate_of c s4 left op right' of
                              Inl e \<Rightarrow> Inl e
                            | Inr (res, s5) \<Rightarrow> v s5 res))))
               | _ \<Rightarrow> Inl (TypeError, s1))))
    | _ \<Rightarrow> Inl (TypeError, s))"

text \<open>\<open>~x\<close> on a number: the bitwise complement of its 32-bit integer value.\<close>

definition bitwise_not :: "int \<Rightarrow> int" where
  "bitwise_not x = sint (not (word_of_int x :: 32 word))"

definition visitUnaryOp :: "collab \<Rightarrow> visitor \<Rightarrow> evaluator \<Rightarrow> ref \<Rightarrow> val result" where
  "visitUnaryOp c v s unary = (case get s (Ref unary) of
      Some (UnaryOp op expr) \<Rightarrow> (case v s expr of
          Inl e \<Rightarrow> Inl e
        | Inr (x, s1) \<Rightarrow> (case first_of c (heap s1) x of
            None \<Rightarrow> Inl (TypeError, s1)
          | Some n \<Rightarrow>
              if op = ''!'' then (case n of
                  Ref r \<Rightarrow> Inr (if toBoolean c (heap s1) r then nodes_false else nodes_true, s1)
                | _ \<Rightarrow> Inl (TypeError, s1))
              else (case (n, get s1 n) of
                  (Ref r, Some (Unit x ty)) \<Rightarrow>
                    if op = ''-'' then Inr (n, put s1 r (Unit (- x) ty))
                    else if op = ''+'' then Inr (n, put s1 r (Unit x ty))
                    else if op = ''~'' then Inr (n, put s1 r (Unit (bitwise_not x) ty))
                    else Inr (n, s1)
                | _ \<Rightarrow> Inl (Error (assertType_message c (heap s1) n), s1))))
    | _ \<Rightarrow> Inl (TypeError, s))"

definition visitTernary :: "collab \<Rightarrow> visitor \<Rightarrow> evaluator \<Rightarrow> ref \<Rightarrow> val result" where
  "visitTernary c v s ternary = (case get s (Ref ternary) of
      Some (Ternary cond t0 f0) \<Rightarrow> (case v s cond of
          Inl e \<Rightarrow> Inl e
        | Inr (x, s1) \<Rightarrow> (case x of
            Ref r \<Rightarrow> (case get s1 (Ref ternary) of
                Some (Ternary cond1 trueExpr falseExpr) \<Rightarrow>
                  if toBoolean c (heap s1) r then v s1 trueExpr else v s1 falseExpr
              | _ \<Rightarrow> Inl (TypeError, s1))
          | _ \<Rightarrow> Inl (TypeError, s1)))
    | _ \<Rightarrow> Inl (TypeError, s))"

subsection \<open>Node sequences\<close>

text \<open>
  The loop \<open>for (i = 0, len = x.nodes.length; i < len; ++i) x.nodes[i] = this.visit(x.nodes[i])\<close>
  of visitGroup, visitExpression and visitBlock, over the indices still to do.
\<close>

primrec visit_nodes :: "visitor \<Rightarrow> ref \<Rightarrow> nat list \<Rightarrow> evaluator \<Rightarrow> unit result" where
  "visit_nodes v x [] s = Inr ((), s)"
| "visit_nodes v x (i # is) s = (case get s (Ref x) of
      None \<Rightarrow> Inl (TypeError, s)
    | Some n \<Rightarrow> (case nodes_of n of
        None \<Rightarrow> Inl (TypeError, s)
      | Some ns \<Rightarrow> (case v s (index ns i) of
          Inl e \<Rightarrow> Inl e
        | Inr (y, s1) \<Rightarrow> (case get s1 (Ref x) of
            None \<Rightarrow> Inl (TypeError, s1)
          | Some n1 \<Rightarrow> (case nodes_of n1 of
              None \<Rightarrow> Inl (TypeError, s1)
            | Some ns1 \<Rightarrow>
                visit_nodes v x is (put s1 x (with_nodes n1 (assign_index ns1 i y))))))))"

definition nodes_length :: "evaluator \<Rightarrow> ref \<Rightarrow> nat option" where
  "nodes_length s x = (case get s (Ref x) of
      None \<Rightarrow> None
    | Some n \<Rightarrow> map_option length (nodes_of n))"

definition visitGroup :: "visitor \<Rightarrow> evaluator \<Rightarrow> ref \<Rightarrow> val result" where
  "visitGroup v s grp = (case nodes_length s grp of
      None \<Rightarrow> Inl (TypeError, s)
    | Some len \<Rightarrow> (case visit_nodes v grp [0..<len] s of
        Inl e \<Rightarrow> Inl e
      | Inr (u, s1) \<Rightarrow> Inr (Ref grp, s1)))"

definition visitExpression :: "visitor \<Rightarrow> evaluator \<Rightarrow> ref \<Rightarrow> val result" where
  "visitExpression v s expr = (case nodes_length s expr of
      None \<Rightarrow> Inl (TypeError, s)
    | Some len \<Rightarrow> (case visit_nodes v expr [0..<len] s of
        Inl e \<Rightarrow> Inl e
      | Inr (u, s1) \<Rightarrow> Inr (Ref expr, s1)))"

definition visitBlock :: "visitor \<Rightarrow> evaluator \<Rightarrow> ref \<Rightarrow> val result" where
  "visitBlock v s blk =
     (let s0 = push s (Frame (Ref blk)) in
      case nodes_length s0 blk of
        None \<Rightarrow> Inl (TypeError, s0)
      | Some len \<Rightarrow> (case visit_nodes v blk [0..<len] s0 of
          Inl e \<Rightarrow> Inl e
        | Inr (u, s1) \<Rightarrow> Inr (Ref blk, pop s1)))"

text \<open>
  The loop of visitRoot reads \<open>block.nodes.length\<close> again at every turn, so it also runs
  over statements that a visit adds to the root. \<open>k\<close> bounds the number of turns.
\<close>

fun visitRoot_loop :: "nat \<Rightarrow> visitor \<Rightarrow> ref \<Rightarrow> nat \<Rightarrow> evaluator \<Rightarrow> unit result" where
  "visitRoot_loop k v blk i s = (case nodes_length s blk of
      None \<Rightarrow> Inl (TypeError, s)
    | Some len \<Rightarrow>
        if i < len then (case k of
            0 \<Rightarrow> Inl (OutOfFuel, s)
          | Suc k' \<Rightarrow> (case visit_nodes v blk [i] (s\<lparr>rootIndex := Some i\<rparr>) of
              Inl e \<Rightarrow> Inl e
            | Inr (u, s1) \<Rightarrow> visitRoot_loop k' v blk (Suc i) s1))
        else Inr ((), s))"

declare visitRoot_loop.simps [simp del]

definition visitRoot :: "nat \<Rightarrow> visitor \<Rightarrow> evaluator \<Rightarrow> ref \<Rightarrow> val result" where
  "visitRoot k v s blk = (case visitRoot_loop k v blk 0 s of
      Inl e \<Rightarrow> Inl e
    | Inr (u, s1) \<Rightarrow> Inr (Ref blk, s1))"

definition visitSelector :: "visitor \<Rightarrow> evaluator \<Rightarrow> ref \<Rightarrow> val result" where
  "visitSelector v s selector = (case get s (Ref selector) of
      Some (Selector sel blk) \<Rightarrow> (case v s blk of
          Inl e \<Rightarrow> Inl e
        | Inr (b, s1) \<Rightarrow> (case get s1 (Ref selector) of
              Some (Selector sel1 blk1) \<Rightarrow> Inr (Ref selector, put s1 selector (Selector sel1 b))
            | _ \<Rightarrow> Inl (TypeError, s1)))
    | _ \<Rightarrow> Inl (TypeError, s))"

definition visitProperty :: "visitor \<Rightarrow> evaluator \<Rightarrow> ref \<Rightarrow> val result" where
  "visitProperty v s prop = (case get s (Ref prop) of
      Some (Property nm expr) \<Rightarrow>
        (let fn = lookup (stack s) nm;
             call = instanceof_Function s fn;
             literal = (calling s = Some nm)
         in if call \<and> \<not> literal
            then (case alloc (s\<lparr>calling := Some nm\<rparr>) (Call nm expr) of
                (cl, s1) \<Rightarrow> (case v s1 (Ref cl) of
                    Inl e \<Rightarrow> Inl e
                  | Inr (ret, s2) \<Rightarrow> Inr (ret, s2\<lparr>calling := None\<rparr>)))
            else
              (let saved = return s in
               case v (s\<lparr>return := True\<rparr>) expr of
                 Inl e \<Rightarrow> Inl e
               | Inr (x, s1) \<Rightarrow> (case get s1 (Ref prop) of
                     Some (Property nm1 expr1) \<Rightarrow>
                       Inr (Ref prop, (put s1 prop (Property nm1 x))\<lparr>return := saved\<rparr>)
                   | _ \<Rightarrow> Inl (TypeError, s1))))
    | _ \<Rightarrow> Inl (TypeError, s))"

subsection \<open>Imports\<close>

text \<open>
  \<open>root.nodes.splice(++i, root.nodes.length)\<close> cuts the root's statements after index
  \<open>i\<close> off and returns them; with \<open>this.rootIndex\<close> still undefined, \<open>++i\<close> is NaN and
  the cut is at 0.
\<close>

definition splice_start :: "nat option \<Rightarrow> nat" where
  "splice_start ri = (case ri of None \<Rightarrow> 0 | Some i \<Rightarrow> Suc i)"

text \<open>\<open>root.nodes\<close> of \<open>this.root\<close>, and an update of it in place.\<close>

definition root_nodes :: "evaluator \<Rightarrow> val list option" where
  "root_nodes s = (case get s (root s) of None \<Rightarrow> None | Some n \<Rightarrow> nodes_of n)"

definition set_root_nodes :: "evaluator \<Rightarrow> val list \<Rightarrow> evaluator" where
  "set_root_nodes s ns = (case (root s, get s (root s)) of
      (Ref r, Some n) \<Rightarrow> put s r (with_nodes n ns)
    | _ \<Rightarrow> s)"

text \<open>
  Modelled from the spec: \<open>stylus.parse(str, {filename, root})\<close> of lib/stylus (not among
  the sources) appends the parsed statements onto the root; it throws on a malformed
  file.
\<close>

definition stylus_parse :: "collab \<Rightarrow> evaluator \<Rightarrow> string \<Rightarrow> string \<Rightarrow> unit result" where
  "stylus_parse c s src filename = (case parse c src filename (length (heap s)) of
      Inl e \<Rightarrow> Inl (e, s)
    | Inr (objs, stmts) \<Rightarrow>
        (let s1 = s\<lparr>heap := heap s @ objs\<rparr> in
         case root_nodes s1 of
           None \<Rightarrow> Inl (TypeError, s1)
         | Some ns \<Rightarrow> Inr ((), set_root_nodes s1 (ns @ stmts))))"

definition visitImport :: "collab \<Rightarrow> evaluator \<Rightarrow> ref \<Rightarrow> val result" where
  "visitImport c s imp = (case get s (Ref imp) of
      Some (Import path0) \<Rightarrow>
        if suffix ''.css'' path0 then Inr (Ref imp, s)
        else
          (let path = path0 @ ''.styl'';
               relative = importPath s;
               found = utils_lookup c path
                 (if truthy relative then paths s @ [the relative] else paths s)
           in if \<not> truthy found
              then Inl (Error (''failed to locate @import file '' @ path), s)
              else
                (let s1 = s\<lparr>importPath := Some (dirname c (the found))\<rparr> in
                 case readFileSync c (the found) of
                   Inl e \<Rightarrow> Inl (e, s1)
                 | Inr src \<Rightarrow> (case root_nodes s1 of
                     None \<Rightarrow> Inl (TypeError, s1)
                   | Some ns \<Rightarrow>
                       (let i = splice_start (rootIndex s1);
                            rest = drop i ns;
                            s2 = set_root_nodes s1 (take i ns)
                        in case stylus_parse c s2 src (the found) of
                             Inl e \<Rightarrow> Inl e
                           | Inr (u, s3) \<Rightarrow> (case root_nodes s3 of
                               None \<Rightarrow> Inl (TypeError, s3)
                             | Some ns3 \<Rightarrow>
                                 Inr (nodes_null, set_root_nodes s3 (ns3 @ rest)))))))
    | _ \<Rightarrow> Inl (TypeError, s))"

subsection \<open>Dispatch\<close>

text \<open>
  Modelled from the spec: \<open>Visitor.prototype.visit\<close> of lib/visitor/index.js (not among
  the sources) dispatches on the class of the node to the visit method of that class.
  The methods for values (Color, HSLA, Literal, Boolean, Unit, String, Null, Function,
  Charset) return the node as it is.
\<close>

definition dispatch :: "collab \<Rightarrow> nat \<Rightarrow> visitor \<Rightarrow> evaluator \<Rightarrow> ref \<Rightarrow> val result" where
  "dispatch c k v s r = (case node (heap s ! r) of
      Group ns \<Rightarrow> visitGroup v s r
    | Selector sel blk \<Rightarrow> visitSelector v s r
    | Call nm args \<Rightarrow> visitCall c v s r
    | Ident nm val \<Rightarrow> visitIdent v s r
    | BinOp op left right \<Rightarrow> visitBinOp c v s r
    | UnaryOp op expr \<Rightarrow> visitUnaryOp c v s r
    | Ternary cond t f \<Rightarrow> visitTernary c v s r
    | Expression ns \<Rightarrow> visitExpression v s r
    | Property nm expr \<Rightarrow> visitProperty v s r
    | Root ns \<Rightarrow> visitRoot k v s r
    | Block p ns \<Rightarrow> visitBlock v s r
    | Import path \<Rightarrow> visitImport c s r
    | _ \<Rightarrow> Inr (Ref r, s))"

text \<open>
  The catch clause of \<open>Evaluator.prototype.visit\<close>:
  \<open>err.str = err.str || node.source; err.stylusStack = err.stylusStack || this.stack.toString()\<close>.
\<close>

definition decorate :: "collab \<Rightarrow> error \<Rightarrow> string option \<Rightarrow> evaluator \<Rightarrow> error" where
  "decorate c err src s = err\<lparr>
     str := (if truthy (str err) then str err else src),
     stylusStack := (if truthy (stylusStack err) then stylusStack err
                     else Some (stack_toString c (heap s) (stack s)))\<rparr>"

text \<open>
  \<open>Evaluator.prototype.visit\<close>, with the depth of the recursion bounded by the fuel. On
  \<open>undefined\<close> the read of \<open>node.lineno\<close> throws, and so does the read of \<open>node.source\<close>
  in the catch clause. A native function is an object of class Function, which
  visitFunction returns; an object that is not a node has no visit method, and the
  dispatch returns it.
\<close>

primrec visit :: "collab \<Rightarrow> nat \<Rightarrow> evaluator \<Rightarrow> val \<Rightarrow> val result" where
  "visit c 0 = (\<lambda>s n. Inl (OutOfFuel, s))"
| "visit c (Suc k) = (\<lambda>s n. case n of
      Undefined \<Rightarrow> Inl (TypeError, s)
    | Native f \<Rightarrow> Inr (Native f, s\<lparr>lineno := None\<rparr>)
    | Object ob \<Rightarrow> Inr (Object ob, s\<lparr>lineno := None\<rparr>)
    | Ref r \<Rightarrow>
        if r < length (heap s)
        then (case dispatch c k (visit c k) (s\<lparr>lineno := obj.lineno (heap s ! r)\<rparr>) r of
            Inl (err, s1) \<Rightarrow> Inl (decorate c err (source (heap s1 ! r)) s1, s1)
          | Inr res \<Rightarrow> Inr res)
        else Inl (TypeError, s))"

definition evaluate :: "collab \<Rightarrow> nat \<Rightarrow> evaluator \<Rightarrow> val result" where
  "evaluate c k s = visit c k s (root s)"

subsection \<open>The return flag\<close>

text \<open>
  A visit function keeps the return flag when every visit that completes normally ends
  with the flag as it found it.
\<close>

definition keeps_return :: "visitor \<Rightarrow> bool" where
  "keeps_return v = (\<forall>s n r s'. v s n = Inr (r, s') \<longrightarrow> return s' = return s)"

section \<open>A concrete set of collaborators\<close>

text \<open>
  The general theorems below hold for every set of collaborators. The closed examples
  run the evaluator on a small concrete one.
\<close>

text \<open>
  Modelled from the spec: \<open>clone()\<close> of the node classes (lib/nodes, not among the sources)
  is a deep copy: no node of the copy is a node of the original. The child slots a copy
  copies are all but the parent of a block; the singletons \<open>nodes.null\<close>, \<open>nodes.true\<close>
  and \<open>nodes.false\<close> stay themselves (visitIdent compares with \<open>nodes.null\<close> by identity).
\<close>

fun children :: "node \<Rightarrow> val list" where
  "children (Function nm ps b) = [ps, b]"
| "children (Ident nm v) = [v]"
| "children (Expression ns) = ns"
| "children (Group ns) = ns"
| "children (BinOp op l r) = [l, r]"
| "children (UnaryOp op e) = [e]"
| "children (Ternary c t f) = [c, t, f]"
| "children (Property nm e) = [e]"
| "children (Selector sel b) = [b]"
| "children (Block p ns) = ns"
| "children (Root ns) = ns"
| "children (Call nm a) = [a]"
| "children n = []"

fun with_children :: "node \<Rightarrow> val list \<Rightarrow> node" where
  "with_children (Function nm ps b) cs = Function nm (index cs 0) (index cs 1)"
| "with_children (Ident nm v) cs = Ident nm (index cs 0)"
| "with_children (Expression ns) cs = Expression cs"
| "with_children (Group ns) cs = Group cs"
| "with_children (BinOp op l r) cs = BinOp op (index cs 0) (index cs 1)"
| "with_children (UnaryOp op e) cs = UnaryOp op (index cs 0)"
| "with_children (Ternary c t f) cs = Ternary (index cs 0) (index cs 1) (index cs 2)"
| "with_children (Property nm e) cs = Property nm (index cs 0)"
| "with_children (Selector sel b) cs = Selector sel (index cs 0)"
| "with_children (Block p ns) cs = Block p cs"
| "with_children (Root ns) cs = Root cs"
| "with_children (Call nm a) cs = Call nm (index cs 0)"
| "with_children n cs = n"

primrec clone_list ::
  "(obj list \<Rightarrow> val \<Rightarrow> (val \<times> obj list) option) \<Rightarrow> obj list \<Rightarrow> val list
     \<Rightarrow> (val list \<times> obj list) option" where
  "clone_list f h [] = Some ([], h)"
| "clone_list f h (x # xs) = (case f h x of
      None \<Rightarrow> None
    | Some (y, h1) \<Rightarrow> (case clone_list f h1 xs of
        None \<Rightarrow> None
      | Some (ys, h2) \<Rightarrow> Some (y # ys, h2)))"

primrec clone_deep :: "nat \<Rightarrow> obj list \<Rightarrow> val \<Rightarrow> (val \<times> obj list) option" where
  "clone_deep 0 = (\<lambda>h x. None)"
| "clone_deep (Suc k) = (\<lambda>h x. case x of
      Ref r \<Rightarrow>
        if r < length h
        then (case node (h ! r) of
            Null \<Rightarrow> Some (x, h)
          | Boolean b \<Rightarrow> Some (x, h)
          | n \<Rightarrow> (case clone_list (clone_deep k) h (children n) of
              None \<Rightarrow> None
            | Some (cs, h1) \<Rightarrow>
                Some (Ref (length h1), h1 @ [(h ! r)\<lparr>node := with_children n cs\<rparr>])))
        else None
    | _ \<Rightarrow> Some (x, h))"

definition mk :: "node \<Rightarrow> obj" where
  "mk n = \<lparr>obj.lineno = Some 1, source = Some ''src'', node = n\<rparr>"

text \<open>
  Modelled from the spec: the capability set of the node classes (lib/nodes, not among the
  sources), as far as the examples need it. \<open>first\<close> of an expression is \<open>nodes[0]\<close>, of
  any other node the node itself; \<open>toBoolean\<close> is false on false and null; \<open>coerce\<close>
  gives a unit the type of the left operand; \<open>operate\<close> adds two units and rejects every
  other operation.
\<close>

definition first0 :: "obj list \<Rightarrow> ref \<Rightarrow> val" where
  "first0 h r = (case node (h ! r) of Expression ns \<Rightarrow> index ns 0 | _ \<Rightarrow> Ref r)"

definition toBoolean0 :: "obj list \<Rightarrow> ref \<Rightarrow> bool" where
  "toBoolean0 h r = (case node (h ! r) of Boolean b \<Rightarrow> b | Null \<Rightarrow> False | _ \<Rightarrow> True)"

definition unit_at :: "obj list \<Rightarrow> val \<Rightarrow> (int \<times> string) option" where
  "unit_at h x = (case x of
      Ref r \<Rightarrow> (case node (h ! r) of Unit a ty \<Rightarrow> Some (a, ty) | _ \<Rightarrow> None)
    | _ \<Rightarrow> None)"

definition coerce0 :: "obj list \<Rightarrow> ref \<Rightarrow> val \<Rightarrow> error + val \<times> obj list" where
  "coerce0 h r y = (case (unit_at h (Ref r), unit_at h y) of
      (Some (a, ty), Some (b, ty')) \<Rightarrow> Inr (Ref (length h), h @ [mk (Unit b ty)])
    | _ \<Rightarrow> Inr (y, h))"

definition operate0 :: "obj list \<Rightarrow> ref \<Rightarrow> string \<Rightarrow> val \<Rightarrow> error + val \<times> obj list" where
  "operate0 h r op y = (case (unit_at h (Ref r), unit_at h y) of
      (Some (a, ty), Some (b, ty')) \<Rightarrow>
        if op = ''+'' then Inr (Ref (length h), h @ [mk (Unit (a + b) ty)])
        else Inl (Error (''cannot perform '' @ op))
    | _ \<Rightarrow> Inl (Error (''cannot perform '' @ op)))"

definition clone0 :: "obj list \<Rightarrow> ref \<Rightarrow> error + val \<times> obj list" where
  "clone0 h r = (case clone_deep (length h) h (Ref r) of
      None \<Rightarrow> Inl (Error ''clone'')
    | Some x \<Rightarrow> Inr x)"

definition toString0 :: "obj list \<Rightarrow> val \<Rightarrow> string" where
  "toString0 h x = (case x of
      Ref r \<Rightarrow> (case node (h ! r) of
          Ident nm v \<Rightarrow> nm
        | Function nm ps b \<Rightarrow> nm @ ''()''
        | _ \<Rightarrow> ''node'')
    | _ \<Rightarrow> ''undefined'')"

text \<open>
  Modelled from the spec: the collaborators outside the node classes, for the examples. No
  built-in function is registered; the path search finds the one file \<open>foo.styl\<close>, whose
  text parses to the single statement \<open>size = 1px\<close>.
\<close>

definition parse0 :: "string \<Rightarrow> string \<Rightarrow> nat \<Rightarrow> error + obj list \<times> val list" where
  "parse0 src file base =
     Inr ([mk (Ident ''size'' (Ref (Suc base))), mk (Unit 1 ''px'')], [Ref base])"

definition collab0 :: collab where
  "collab0 = \<lparr>
     first = first0,
     toBoolean = toBoolean0,
     coerce = coerce0,
     operate = operate0,
     clone = clone0,
     toString = toString0,
     assertType_message = (\<lambda>h x. ''expected Unit''),
     bifs = (\<lambda>nm. None),
     apply_native = (\<lambda>f h args. Inr (Undefined, h)),
     utils_lookup = (\<lambda>path ps. if path = ''foo.styl'' then Some ''lib/foo.styl'' else None),
     readFileSync = (\<lambda>file. Inr ''size = 1px''),
     parse = parse0,
     dirname = (\<lambda>file. ''lib''),
     stack_toString = (\<lambda>h fs. replicate (length fs) CHR ''#'')\<rparr>"

text \<open>
  An evaluator over the given nodes (the singletons first, at addresses 0, 1 and 2), with
  one global frame for the block at \<open>b\<close> that binds the given names.
\<close>

definition start :: "node list \<Rightarrow> ref \<Rightarrow> (string \<times> val) list \<Rightarrow> bool \<Rightarrow> evaluator" where
  "start ns b binds ret = \<lparr>
     heap = map mk ([Null, Boolean True, Boolean False] @ ns),
     stack = [\<lparr>scope = (\<lambda>nm. case map_of binds nm of None \<Rightarrow> Undefined | Some x \<Rightarrow> x),
               block = Ref b\<rparr>],
     return = ret, calling = None, importPath = None, rootIndex = None, paths = [],
     functions_table = (\<lambda>nm. None), root = Ref b, lineno = None\<rparr>"

section \<open>Example programs\<close>

text \<open>
  A block \<open>foo(); y\<close> (at address 7) in the scope of a function \<open>foo\<close> whose body is the
  one statement \<open>x\<close>.
\<close>

definition mixin_nodes :: "node list" where
  "mixin_nodes = [Function ''foo'' (Ref 4) (Ref 5), Expression [], Block Undefined [Ref 6],
     Literal ''x'', Block Undefined [Ref 8, Ref 10], Call ''foo'' (Ref 9), Expression [],
     Literal ''y'']"

text \<open>
  A function \<open>neg(a = 5px)\<close> with the body \<open>-a\<close>, and two calls \<open>neg()\<close> of it (at
  addresses 10 and 13).
\<close>

definition neg_nodes :: "node list" where
  "neg_nodes = [Function ''neg'' (Ref 4) (Ref 7), Expression [Ref 5], Ident ''a'' (Ref 6),
     Expression [Ref 11], Block Undefined [Ref 8], UnaryOp ''-'' (Ref 9), Ident ''a'' (Ref 0),
     Call ''neg'' (Ref 12), Unit 5 ''px'', Expression [], Call ''neg'' (Ref 14), Expression [],
     Block Undefined [Ref 10, Ref 13]]"

text \<open>
  A root (at address 3) with the statements \<open>@import "foo"\<close> and \<open>size\<close>, and an import
  of a file \<open>bar\<close> that the path search does not find.
\<close>

definition import_nodes :: "node list" where
  "import_nodes = [Root [Ref 4, Ref 5], Import ''foo'', Ident ''size'' (Ref 0), Import ''bar'']"

text \<open>The operation \<open>1px + 2em\<close> (at address 3).\<close>

definition binop_nodes :: "node list" where
  "binop_nodes = [BinOp ''+'' (Ref 4) (Ref 5), Unit 1 ''px'', Unit 2 ''em'']"

text \<open>
  The expression \<open>true ? (a = 1px) : (b = 2px)\<close> (at address 3).
\<close>

definition ternary_nodes :: "node list" where
  "ternary_nodes = [Ternary (Ref 1) (Ref 4) (Ref 5), Ident ''a'' (Ref 6), Ident ''b'' (Ref 7),
     Unit 1 ''px'', Unit 2 ''px'']"





text \<open>The call \<open>url(a.png)\<close> (at address 3) of a name that nothing binds.\<close>

definition call_nodes :: "node list" where
  "call_nodes = [Call ''url'' (Ref 4), Expression [Ref 5], Literal ''a.png'']"

text \<open>
  A block (at address 3) whose one statement is the call \<open>toString()\<close> (at address 4), of
  a name that nothing binds either.
\<close>

definition tostring_nodes :: "node list" where
  "tostring_nodes = [Block Undefined [Ref 4], Call ''toString'' (Ref 5), Expression []]"

text \<open>
  A function \<open>foo(a)\<close> whose parameter has no default, and the arguments of a call \<open>foo()\<close>
  (the empty expression at address 7).
\<close>

definition required_nodes :: "node list" where
  "required_nodes = [Function ''foo'' (Ref 4) (Ref 6), Expression [Ref 5], Ident ''a'' (Ref 0),
     Block Undefined [], Expression []]"

text \<open>The call \<open>a()\<close> (at address 3), for a variable \<open>a = 5px\<close> (the expression at address 5).\<close>

definition value_call_nodes :: "node list" where
  "value_call_nodes = [Call ''a'' (Ref 4), Expression [], Expression [Ref 6], Unit 5 ''px'']"

text \<open>The property \<open>width: 1px\<close> (at address 3).\<close>

definition property_nodes :: "node list" where
  "property_nodes = [Property ''width'' (Ref 4), Expression [Ref 5], Unit 1 ''px'']"

text \<open>A visit function that returns its node and leaves the return flag set.\<close>

definition sets_return :: visitor where
  "sets_return s n = Inr (n, s\<lparr>return := True\<rparr>)"

section \<open>Properties\<close>

subsection \<open>The store\<close>

lemma get_Ref_Some: "get s (Ref r) = Some n \<Longrightarrow> r < length (heap s) \<and> node (heap s ! r) = n"
  by (simp add: get_def split: if_splits)

lemma get_put_same: "r < length (heap s) \<Longrightarrow> get (put s r n) (Ref r) = Some n"
  by (simp add: get_def put_def)

lemma get_put_other: "r' \<noteq> r \<Longrightarrow> get (put s r n) (Ref r') = get s (Ref r')"
  by (simp add: get_def put_def)

lemma put_put: "put (put s r a) r b = put s r b"
  by (cases "r < length (heap s)") (simp_all add: put_def list_update_beyond)

lemma put_same: "get s (Ref r) = Some n \<Longrightarrow> put s r n = s"
  by (auto simp: get_def put_def split: if_splits)

lemma put_fields [simp]:
  "stack (put s r n) = stack s" "return (put s r n) = return s"
  "calling (put s r n) = calling s" "length (heap (put s r n)) = length (heap s)"
  by (simp_all add: put_def)

lemma get_update [simp]:
  "get (s\<lparr>calling := a\<rparr>) = get s" "get (s\<lparr>return := b\<rparr>) = get s"
  "get (s\<lparr>stack := st\<rparr>) = get s" "get (s\<lparr>lineno := l\<rparr>) = get s"
  "get (s\<lparr>rootIndex := i\<rparr>) = get s" "get (s\<lparr>importPath := p\<rparr>) = get s"
  by (auto simp: get_def fun_eq_iff split: val.splits)

lemma nodes_of_with_nodes: "nodes_of n = Some xs \<Longrightarrow> nodes_of (with_nodes n ys) = Some ys"
  by (cases n) simp_all

lemma with_nodes_twice: "with_nodes (with_nodes n xs) ys = with_nodes n ys"
  by (cases n) simp_all

subsection \<open>invoke: a value, or statements appended to the current block\<close>

lemma push_node_ok:
  assumes "stack s = f # fs" "block f = Ref b" "get s (Ref b) = Some tn" "nodes_of tn = Some old"
  shows "push_node s n = Inr ((), put s b (with_nodes tn (old @ [n])))"
  using assms by (simp add: push_node_def)

lemma forEach_push_ok:
  "stack s = f # fs \<Longrightarrow> block f = Ref b \<Longrightarrow> get s (Ref b) = Some tn \<Longrightarrow> nodes_of tn = Some old
   \<Longrightarrow> forEach_push ns s = Inr ((), put s b (with_nodes tn (old @ ns)))"
proof (induction ns arbitrary: s tn old)
  case Nil
  have "with_nodes tn old = tn"
    using Nil(4) by (cases tn) simp_all
  then have "put s b (with_nodes tn old) = s"
    using Nil(3) by (simp add: put_same)
  then show ?case by simp
next
  case (Cons n ns)
  let ?s1 = "put s b (with_nodes tn (old @ [n]))"
  have b: "b < length (heap s)" using get_Ref_Some [OF Cons.prems(3)] by simp
  have step: "push_node s n = Inr ((), ?s1)" using Cons.prems by (rule push_node_ok)
  have "forEach_push ns ?s1
      = Inr ((), put ?s1 b (with_nodes (with_nodes tn (old @ [n])) ((old @ [n]) @ ns)))"
    using Cons.prems b
    by (intro Cons.IH) (simp_all add: get_put_same nodes_of_with_nodes)
  then show ?case using step by (simp add: put_put with_nodes_twice)
qed

text \<open>Both kinds of invocation end in invoke: their value and state are those of an invoke.\<close>

lemma invokeBuiltin_ends_in_invoke:
  "invokeBuiltin c s f args = Inr (r, s') \<Longrightarrow> \<exists>t body. invoke t body = Inr (r, s')"
  by (auto simp: invokeBuiltin_def Let_def
      split: option.splits sum.splits prod.splits if_splits)

lemma invokeFunction_ends_in_invoke:
  "invokeFunction c v s fn args = Inr (r, s') \<Longrightarrow> \<exists>t body. invoke t body = Inr (r, s')"
  by (auto simp: invokeFunction_def Let_def
      split: option.splits val.splits node.splits sum.splits prod.splits)

text \<open>
  C1 (as amended). invoke on a body whose statement sequence is \<open>ns\<close>: in value-returning
  mode it returns the last node of \<open>ns\<close> (\<open>undefined\<close> when there is none) and leaves the
  state as it is, so nothing is spliced; otherwise it appends the nodes of \<open>ns\<close>, in their
  order, at the end of the node sequence of the block of the current frame, changes
  nothing else, and returns the null node.
\<close>

theorem invoke_return_or_append:
  assumes "get s body = Some bn" and "nodes_of bn = Some ns"
  shows "(return s \<longrightarrow> invoke s body = Inr (if ns = [] then Undefined else last ns, s)) \<and>
         (\<not> return s \<and> stack s = f # fs \<and> block f = Ref b \<and> get s (Ref b) = Some tn
            \<and> nodes_of tn = Some old
          \<longrightarrow> invoke s body = Inr (nodes_null, put s b (with_nodes tn (old @ ns))))"
proof (intro conjI impI)
  assume "return s"
  then show "invoke s body = Inr (if ns = [] then Undefined else last ns, s)"
    using assms by (simp add: invoke_def index_def last_conv_nth)
next
  assume a: "\<not> return s \<and> stack s = f # fs \<and> block f = Ref b \<and> get s (Ref b) = Some tn
            \<and> nodes_of tn = Some old"
  then have "stack s = f # fs" "block f = Ref b" "get s (Ref b) = Some tn" "nodes_of tn = Some old"
    by simp_all
  then have "forEach_push ns s = Inr ((), put s b (with_nodes tn (old @ ns)))"
    by (rule forEach_push_ok)
  then show "invoke s body = Inr (nodes_null, put s b (with_nodes tn (old @ ns)))"
    using assms a by (simp add: invoke_def)
qed

theorem invoke_return_or_append_witness:
  "invoke (start mixin_nodes 7 [] True) (Ref 5) = Inr (Ref 6, start mixin_nodes 7 [] True) \<and>
   invoke (start mixin_nodes 7 [] False) (Ref 5)
     = Inr (nodes_null,
         put (start mixin_nodes 7 [] False) 7 (Block Undefined [Ref 8, Ref 10, Ref 6]))"
proof -
  let ?T = "start mixin_nodes 7 [] True" and ?F = "start mixin_nodes 7 [] False"
  have bT: "get ?T (Ref 5) = Some (Block Undefined [Ref 6])"
    and bF: "get ?F (Ref 5) = Some (Block Undefined [Ref 6])"
    and tF: "get ?F (Ref 7) = Some (Block Undefined [Ref 8, Ref 10])"
    by (simp_all add: get_def start_def mk_def mixin_nodes_def)
  have n: "nodes_of (Block Undefined [Ref 6]) = Some [Ref 6]" by simp
  have st: "stack ?F = [Frame (Ref 7)]" by (simp add: start_def Frame_def)
  have "invoke ?T (Ref 5) = Inr (Ref 6, ?T)"
    using invoke_return_or_append [OF bT n] by (simp add: start_def)
  moreover have "invoke ?F (Ref 5)
      = Inr (nodes_null,
          put ?F 7 (with_nodes (Block Undefined [Ref 8, Ref 10]) ([Ref 8, Ref 10] @ [Ref 6])))"
    using invoke_return_or_append [OF bF n, of "Frame (Ref 7)" "[]" 7
        "Block Undefined [Ref 8, Ref 10]" "[Ref 8, Ref 10]"] st tF
    by (simp add: start_def Frame_def)
  ultimately show ?thesis by simp
qed

text \<open>
  The block \<open>foo(); y\<close>, visited as a statement sequence: the call at index 0 becomes the
  null node, and the statement of the body of \<open>foo\<close> (its clone, at address 11) stands
  at index 2, after \<open>y\<close>, not at the position of the call.
\<close>

theorem mixin_not_at_call_position:
  "(case visit collab0 9 (start mixin_nodes 7 [(''foo'', Ref 3)] False) (Ref 7) of
      Inl e \<Rightarrow> None
    | Inr (r, s') \<Rightarrow> get s' (Ref 7)) = Some (Block Undefined [Ref 0, Ref 10, Ref 11])"
  by code_simp

subsection \<open>Function definitions and their default values\<close>

text \<open>
  C2. invokeFunction clones the body of the function, but it binds a parameter without
  argument to the default value node of the definition itself: line 417 reads
  \<open>node.val\<close> before line 418 clones the parameter, and line 419 stores that node in the
  clone. With \<open>neg(a = 5px)\<close> and the body \<open>-a\<close>, the first call \<open>neg()\<close> negates the
  unit of the definition (address 11) in place and returns it as \<open>-5px\<close>; the second call
  of the same function finds the default \<open>-5px\<close> and returns \<open>5px\<close>.
\<close>

theorem default_value_shared_between_calls:
  "(case visit collab0 9 (start neg_nodes 15 [(''neg'', Ref 3)] True) (Ref 10) of
      Inl e \<Rightarrow> None
    | Inr (r1, s1) \<Rightarrow> (case visit collab0 9 s1 (Ref 13) of
          Inl e \<Rightarrow> None
        | Inr (r2, s2) \<Rightarrow> Some ((r1, get s1 r1), get s1 (Ref 11), (r2, get s2 r2))))
   = Some ((Ref 11, Some (Unit (- 5) ''px'')), Some (Unit (- 5) ''px''),
           (Ref 11, Some (Unit 5 ''px'')))"
  by code_simp

subsection \<open>Imports\<close>

text \<open>
  C3. For an import whose path does not end in \<open>.css\<close>: when the path search finds no
  file (or an empty name), visitImport throws the error \<open>failed to locate @import file\<close>
  with the path and leaves the state as it is. When it finds the file, and the root holds
  the statements \<open>ns\<close> and the current root index is \<open>i\<close>, visitImport returns the null
  node; the root then holds the statements up to index \<open>i\<close>, the parsed statements, and
  the statements that stood after index \<open>i\<close>, in this order; the only other changes are
  the objects the parser allocated and the import directory. The statements at or before
  index \<open>i\<close> are the ones that were there.
\<close>

theorem visitImport_splices_after_rootIndex:
  assumes imp: "get s (Ref imp) = Some (Import path)" and css: "\<not> suffix ''.css'' path"
    and lk: "utils_lookup c (path @ ''.styl'')
      (if truthy (importPath s) then paths s @ [the (importPath s)] else paths s) = file"
  shows "(\<not> truthy file \<longrightarrow>
            visitImport c s imp
              = Inl (Error (''failed to locate @import file '' @ path @ ''.styl''), s)) \<and>
         (file = Some found \<and> found \<noteq> [] \<and> readFileSync c found = Inr src \<and> root s = Ref rt
            \<and> get s (Ref rt) = Some rn \<and> nodes_of rn = Some ns \<and> rootIndex s = Some i
            \<and> parse c src found (length (heap s)) = Inr (objs, stmts)
          \<longrightarrow> visitImport c s imp
                = Inr (nodes_null,
                    s\<lparr>heap := (heap s)[rt := (heap s ! rt)
                          \<lparr>node := with_nodes rn (take (Suc i) ns @ stmts @ drop (Suc i) ns)\<rparr>]
                        @ objs,
                      importPath := Some (dirname c found)\<rparr>)
              \<and> (i < length ns \<longrightarrow>
                   take (Suc i) (take (Suc i) ns @ stmts @ drop (Suc i) ns) = take (Suc i) ns))"
proof (intro conjI impI)
  assume "\<not> truthy file"
  then show "visitImport c s imp
      = Inl (Error (''failed to locate @import file '' @ path @ ''.styl''), s)"
    using imp css lk by (simp add: visitImport_def Let_def)
next
  assume a: "file = Some found \<and> found \<noteq> [] \<and> readFileSync c found = Inr src \<and> root s = Ref rt
            \<and> get s (Ref rt) = Some rn \<and> nodes_of rn = Some ns \<and> rootIndex s = Some i
            \<and> parse c src found (length (heap s)) = Inr (objs, stmts)"
  then have rt: "rt < length (heap s)" "node (heap s ! rt) = rn"
    using get_Ref_Some [of s rt rn] by simp_all
  let ?s1 = "s\<lparr>importPath := Some (dirname c found)\<rparr>"
  let ?s2 = "put ?s1 rt (with_nodes rn (take (Suc i) ns))"
  let ?s3a = "?s2\<lparr>heap := heap ?s2 @ objs\<rparr>"
  let ?s3 = "put ?s3a rt (with_nodes rn (take (Suc i) ns @ stmts))"
  have r1: "root_nodes ?s1 = Some ns"
    using a by (simp add: root_nodes_def)
  have s2: "set_root_nodes ?s1 (take (Suc i) ns) = ?s2"
    using a by (simp add: set_root_nodes_def)
  have g3a: "get ?s3a (Ref rt) = Some (with_nodes rn (take (Suc i) ns))"
    using rt by (simp add: get_def put_def nth_append)
  have r3a: "root_nodes ?s3a = Some (take (Suc i) ns)"
    using a g3a by (simp add: root_nodes_def put_def nodes_of_with_nodes)
  have s3: "set_root_nodes ?s3a (take (Suc i) ns @ stmts) = ?s3"
    using a g3a by (simp add: set_root_nodes_def put_def with_nodes_twice)
  have p: "stylus_parse c ?s2 src found = Inr ((), ?s3)"
    using a r3a s3 rt by (simp add: stylus_parse_def Let_def put_def)
  have g3: "get ?s3 (Ref rt) = Some (with_nodes rn (take (Suc i) ns @ stmts))"
    using rt by (simp add: get_def put_def)
  have r3: "root_nodes ?s3 = Some (take (Suc i) ns @ stmts)"
    using a g3 by (simp add: root_nodes_def put_def nodes_of_with_nodes)
  have s4: "set_root_nodes ?s3 ((take (Suc i) ns @ stmts) @ drop (Suc i) ns)
      = s\<lparr>heap := (heap s)[rt := (heap s ! rt)
                          \<lparr>node := with_nodes rn (take (Suc i) ns @ stmts @ drop (Suc i) ns)\<rparr>]
                        @ objs,
                      importPath := Some (dirname c found)\<rparr>"
    using a g3 rt
    by (simp add: set_root_nodes_def put_def with_nodes_twice nth_append list_update_append1)
  show "visitImport c s imp
                = Inr (nodes_null,
                    s\<lparr>heap := (heap s)[rt := (heap s ! rt)
                          \<lparr>node := with_nodes rn (take (Suc i) ns @ stmts @ drop (Suc i) ns)\<rparr>]
                        @ objs,
                      importPath := Some (dirname c found)\<rparr>)"
    using imp css a r1 s2 p r3 s4 lk
    by (simp add: visitImport_def Let_def splice_start_def truthy_def)
next
  assume "i < length ns"
  then show "take (Suc i) (take (Suc i) ns @ stmts @ drop (Suc i) ns) = take (Suc i) ns"
    by simp
qed

text \<open>
  The loop of visitRoot goes on at the next index in the state the visit left, so over
  the statements an import has put there.
\<close>

lemma visitRoot_loop_next:
  assumes "nodes_length s blk = Some len" and "i < len"
    and "visit_nodes v blk [i] (s\<lparr>rootIndex := Some i\<rparr>) = Inr ((), s1)"
  shows "visitRoot_loop (Suc k) v blk i s = visitRoot_loop k v blk (Suc i) s1"
  using assms by (subst visitRoot_loop.simps) simp

text \<open>
  An import that is not found, an import that is found, and the whole evaluator on the
  root \<open>@import "foo"; size\<close>: the imported statement \<open>size = 1px\<close> is visited at index
  1, before the statement \<open>size\<close>, which finds the binding.
\<close>

theorem visitImport_splices_after_rootIndex_witness:
  "visitImport collab0 ((start import_nodes 3 [] False)\<lparr>rootIndex := Some 0\<rparr>) 6
     = Inl (Error ''failed to locate @import file bar.styl'',
            (start import_nodes 3 [] False)\<lparr>rootIndex := Some 0\<rparr>) \<and>
   visitImport collab0 ((start import_nodes 3 [] False)\<lparr>rootIndex := Some 0\<rparr>) 4
     = Inr (nodes_null, (start import_nodes 3 [] False)
         \<lparr>heap := map mk [Null, Boolean True, Boolean False, Root [Ref 4, Ref 7, Ref 5],
             Import ''foo'', Ident ''size'' (Ref 0), Import ''bar'', Ident ''size'' (Ref 8),
             Unit 1 ''px''],
           importPath := Some ''lib'', rootIndex := Some 0\<rparr>) \<and>
   (case visit collab0 9 (start import_nodes 3 [] False) (Ref 3) of
      Inl e \<Rightarrow> None
    | Inr (r, s') \<Rightarrow> get s' (Ref 3)) = Some (Root [Ref 0, Ref 8, Ref 8])"
proof -
  let ?s = "(start import_nodes 3 [] False)\<lparr>rootIndex := Some 0\<rparr>"
  have h: "heap (start import_nodes 3 [] False) = map mk [Null, Boolean True, Boolean False,
      Root [Ref 4, Ref 5], Import ''foo'', Ident ''size'' (Ref 0), Import ''bar'']"
    by (simp add: start_def import_nodes_def)
  have bar: "get ?s (Ref 6) = Some (Import ''bar'')"
    and foo: "get ?s (Ref 4) = Some (Import ''foo'')"
    and rt: "get ?s (Ref 3) = Some (Root [Ref 4, Ref 5])"
    by (simp_all add: get_def h mk_def)
  have css: "\<not> suffix ''.css'' ''bar''" "\<not> suffix ''.css'' ''foo''"
    by (simp_all add: suffix_def)
  have nf: "utils_lookup collab0 (''bar'' @ ''.styl'')
      (if truthy (importPath ?s) then paths ?s @ [the (importPath ?s)] else paths ?s) = None"
    by (simp add: collab0_def)
  have f: "utils_lookup collab0 (''foo'' @ ''.styl'')
      (if truthy (importPath ?s) then paths ?s @ [the (importPath ?s)] else paths ?s)
      = Some ''lib/foo.styl''"
    by (simp add: collab0_def)
  have A: "visitImport collab0 ?s 6
     = Inl (Error ''failed to locate @import file bar.styl'', ?s)"
    using visitImport_splices_after_rootIndex [OF bar css(1) nf] by (simp add: truthy_def)
  have rs: "root ?s = Ref 3" and ri: "rootIndex ?s = Some 0"
    by (simp_all add: start_def)
  have len: "length (heap ?s) = 7"
    by (simp add: h)
  have rd: "readFileSync collab0 ''lib/foo.styl'' = Inr ''size = 1px''"
    and pr: "parse collab0 ''size = 1px'' ''lib/foo.styl'' 7
      = Inr ([mk (Ident ''size'' (Ref 8)), mk (Unit 1 ''px'')], [Ref 7])"
    by (simp_all add: collab0_def parse0_def)
  have B0: "visitImport collab0 ?s 4
     = Inr (nodes_null, ?s\<lparr>heap := (heap ?s)[3 := (heap ?s ! 3)\<lparr>node := Root [Ref 4, Ref 7, Ref 5]\<rparr>]
               @ [mk (Ident ''size'' (Ref 8)), mk (Unit 1 ''px'')],
             importPath := Some (dirname collab0 ''lib/foo.styl'')\<rparr>)"
    using visitImport_splices_after_rootIndex [OF foo css(2) f, of "''lib/foo.styl''"
        "''size = 1px''" 3 "Root [Ref 4, Ref 5]" "[Ref 4, Ref 5]" 0
        "[mk (Ident ''size'' (Ref 8)), mk (Unit 1 ''px'')]" "[Ref 7]"] rt rs ri len rd pr
    by simp
  have B: "visitImport collab0 ?s 4
     = Inr (nodes_null, (start import_nodes 3 [] False)
         \<lparr>heap := map mk [Null, Boolean True, Boolean False, Root [Ref 4, Ref 7, Ref 5],
             Import ''foo'', Ident ''size'' (Ref 0), Import ''bar'', Ident ''size'' (Ref 8),
             Unit 1 ''px''],
           importPath := Some ''lib'', rootIndex := Some 0\<rparr>)"
    unfolding B0 by (simp add: h mk_def collab0_def)
  have C: "(case visit collab0 9 (start import_nodes 3 [] False) (Ref 3) of
      Inl e \<Rightarrow> None
    | Inr (r, s') \<Rightarrow> get s' (Ref 3)) = Some (Root [Ref 0, Ref 8, Ref 8])"
    by code_simp
  show ?thesis using A B C by simp
qed

subsection \<open>Binary operations\<close>

text \<open>
  C4. For an operator other than \<open>is defined\<close>, \<open>||\<close>, \<open>&&\<close> and \<open>is a\<close>: when both
  operands are visited (in value-returning mode) and reduced to their first values \<open>left\<close>
  and \<open>right\<close>, and \<open>left.coerce(right)\<close> gives \<open>right'\<close>, then \<open>left.operate(op, right')\<close>
  is applied to the coerced operand, and visitBinOp is the visit of its result, with the
  return flag back at its value on entry.
\<close>

theorem visitBinOp_coerces_then_operates:
  assumes "get s (Ref binop) = Some (BinOp op left0 right0)"
    and "op \<noteq> ''is defined''" and "op \<notin> set [''||'', ''&&'', ''is a'']"
    and "v (s\<lparr>return := True\<rparr>) left0 = Inr (l, s1)"
    and "first_of c (heap s1) l = Some (Ref left)"
    and "get s1 (Ref binop) = Some (BinOp op1 left1 right1)"
    and "v s1 right1 = Inr (r, s2)"
    and "first_of c (heap s2) r = Some right"
    and "coerce c (heap s2) left right = Inr (right', h3)"
    and "operate c h3 left op right' = Inr (res, h4)"
  shows "visitBinOp c v s binop = v (s2\<lparr>return := return s, heap := h4\<rparr>) res"
  using assms
  by (simp add: visitBinOp_def Let_def coerce_of_def operate_of_def lift_def)

theorem visitBinOp_coerces_then_operates_witness:
  "visitBinOp collab0 (visit collab0 1) (start binop_nodes 3 [] False) 3
     = Inr (Ref 7, (start binop_nodes 3 [] False)
         \<lparr>heap := heap (start binop_nodes 3 [] False) @ [mk (Unit 2 ''px''), mk (Unit 3 ''px'')],
           lineno := Some 1\<rparr>)"
proof -
  let ?s = "start binop_nodes 3 [] False"
  let ?s1 = "?s\<lparr>return := True, lineno := Some 1\<rparr>"
  let ?h3 = "heap ?s @ [mk (Unit 2 ''px'')]"
  let ?h4 = "?h3 @ [mk (Unit 3 ''px'')]"
  have h: "heap ?s = map mk [Null, Boolean True, Boolean False,
      BinOp ''+'' (Ref 4) (Ref 5), Unit 1 ''px'', Unit 2 ''em'']"
    by (simp add: start_def binop_nodes_def)
  have g: "get ?s (Ref 3) = Some (BinOp ''+'' (Ref 4) (Ref 5))"
    by (simp add: get_def h mk_def)
  have g1: "get ?s1 (Ref 3) = Some (BinOp ''+'' (Ref 4) (Ref 5))"
    using g by simp
  have l: "visit collab0 1 (?s\<lparr>return := True\<rparr>) (Ref 4) = Inr (Ref 4, ?s1)"
    by (simp add: h mk_def dispatch_def)
  have r: "visit collab0 1 ?s1 (Ref 5) = Inr (Ref 5, ?s1)"
    by (simp add: h mk_def dispatch_def)
  have fl: "first_of collab0 (heap ?s1) (Ref 4) = Some (Ref 4)"
    and fr: "first_of collab0 (heap ?s1) (Ref 5) = Some (Ref 5)"
    by (simp_all add: first_of_def collab0_def first0_def h mk_def)
  have co: "coerce collab0 (heap ?s1) 4 (Ref 5) = Inr (Ref 6, ?h3)"
    by (simp add: collab0_def coerce0_def unit_at_def h mk_def)
  have op: "operate collab0 ?h3 4 ''+'' (Ref 6) = Inr (Ref 7, ?h4)"
    by (simp add: collab0_def operate0_def unit_at_def h mk_def)
  have "visitBinOp collab0 (visit collab0 1) ?s 3
      = visit collab0 1 (?s1\<lparr>return := return ?s, heap := ?h4\<rparr>) (Ref 7)"
    by (rule visitBinOp_coerces_then_operates [OF g _ _ l fl g1 r fr co op]) simp_all
  also have "\<dots> = Inr (Ref 7, ?s\<lparr>heap := ?h4, lineno := Some 1\<rparr>)"
    by (simp add: mk_def dispatch_def start_def binop_nodes_def)
  finally show ?thesis by simp
qed

subsection \<open>Ternary expressions\<close>

text \<open>
  C5. When the condition of a ternary is visited and gives a node, visitTernary is the
  visit of the branch its boolean value selects, from the state the condition left: the
  outcome (value, state, or error) is that of this one visit. It does not depend on what
  the visit function does with the other branch: a visit function that agrees on the
  condition and on the selected branch gives the same outcome.
\<close>

theorem visitTernary_only_taken_branch:
  assumes "get s (Ref ternary) = Some (Ternary cond t0 f0)"
    and "v s cond = Inr (Ref r, s1)"
    and "get s1 (Ref ternary) = Some (Ternary cond1 trueExpr falseExpr)"
  shows "visitTernary c v s ternary
           = (if toBoolean c (heap s1) r then v s1 trueExpr else v s1 falseExpr) \<and>
         (v' s cond = v s cond \<and>
          (if toBoolean c (heap s1) r then v' s1 trueExpr = v s1 trueExpr
           else v' s1 falseExpr = v s1 falseExpr)
          \<longrightarrow> visitTernary c v' s ternary = visitTernary c v s ternary)"
  using assms
  by (simp add: visitTernary_def)

theorem visitTernary_only_taken_branch_witness:
  "(case visitTernary collab0 (visit collab0 2) (start ternary_nodes 3 [] False) 3 of
      Inl e \<Rightarrow> None
    | Inr (r, s') \<Rightarrow> Some (r, lookup (stack s') ''a'', lookup (stack s') ''b''))
     = Some (Ref 6, Ref 6, Undefined) \<and>
   visitTernary collab0
       (\<lambda>s n. if n = Ref 5 then Inl (Error ''untaken'', s) else visit collab0 2 s n)
       (start ternary_nodes 3 [] False) 3
     = visitTernary collab0 (visit collab0 2) (start ternary_nodes 3 [] False) 3"
proof -
  let ?s = "start ternary_nodes 3 [] False"
  let ?v = "visit collab0 2"
  let ?v' = "\<lambda>s n. if n = Ref 5 then Inl (Error ''untaken'', s) else visit collab0 2 s n"
  have g: "get ?s (Ref 3) = Some (Ternary (Ref 1) (Ref 4) (Ref 5))"
    by code_simp
  have "(case ?v ?s (Ref 1) of Inl e \<Rightarrow> None | Inr (x, s1) \<Rightarrow> Some (x, get s1 (Ref 3),
            toBoolean collab0 (heap s1) 1,
            case ?v s1 (Ref 4) of Inl e \<Rightarrow> None
            | Inr (r, s') \<Rightarrow> Some (r, lookup (stack s') ''a'', lookup (stack s') ''b'')))
      = Some (Ref 1, Some (Ternary (Ref 1) (Ref 4) (Ref 5)), True, Some (Ref 6, Ref 6, Undefined))"
    by code_simp
  then obtain s1 where c: "?v ?s (Ref 1) = Inr (Ref 1, s1)"
    and g1: "get s1 (Ref 3) = Some (Ternary (Ref 1) (Ref 4) (Ref 5))"
    and b: "toBoolean collab0 (heap s1) 1"
    and t: "(case ?v s1 (Ref 4) of Inl e \<Rightarrow> None
            | Inr (r, s') \<Rightarrow> Some (r, lookup (stack s') ''a'', lookup (stack s') ''b''))
            = Some (Ref 6, Ref 6, Undefined)"
    by (auto split: sum.splits prod.splits)
  note th = visitTernary_only_taken_branch [where v = ?v and v' = ?v' and c = collab0, OF g c g1]
  from th b have "visitTernary collab0 ?v ?s 3 = ?v s1 (Ref 4)" by simp
  moreover from th b have "visitTernary collab0 ?v' ?s 3 = visitTernary collab0 ?v ?s 3" by simp
  ultimately show ?thesis using t by simp
qed

subsection \<open>Errors and their decoration\<close>






subsection \<open>Calls of unresolved names\<close>

text \<open>
  When the lookup of the name of a call answers \<open>undefined\<close>, and the visit of its
  argument expression completes (leaving the call node a call of that name: no visit
  method writes the name of a call), visitCall returns the same call node and raises no
  error; the node has its name and the visited arguments, and nothing else changes after
  the visit of the arguments.
\<close>

lemma visitCall_pass_through:
  assumes "get s (Ref call) = Some (Call nm args)"
    and "lookupFunction c s nm = Undefined"
    and "v s args = Inr (a, s1)"
    and "get s1 (Ref call) = Some (Call nm args1)"
  shows "visitCall c v s call = Inr (Ref call, put s1 call (Call nm a)) \<and>
         get (put s1 call (Call nm a)) (Ref call) = Some (Call nm a)"
  using assms get_Ref_Some [OF assms(4)]
  by (simp add: visitCall_def literalCall_def get_put_same)

lemma visitCall_pass_through_url:
  "(case visitCall collab0 (visit collab0 2) (start call_nodes 3 [] False) 3 of
      Inl e \<Rightarrow> None
    | Inr (r, s') \<Rightarrow> Some (r, get s' (Ref 3), get s' (Ref 4)))
     = Some (Ref 3, Some (Call ''url'' (Ref 4)), Some (Expression [Ref 5]))"
proof -
  let ?s = "start call_nodes 3 [] False"
  have g: "get ?s (Ref 3) = Some (Call ''url'' (Ref 4))"
    by code_simp
  have u: "lookupFunction collab0 ?s ''url'' = Undefined"
    by code_simp
  have "(case visit collab0 2 ?s (Ref 4) of Inl e \<Rightarrow> None
         | Inr (a, s1) \<Rightarrow> Some (a, get s1 (Ref 3), get s1 (Ref 4)))
      = Some (Ref 4, Some (Call ''url'' (Ref 4)), Some (Expression [Ref 5]))"
    by code_simp
  then obtain s1 where a: "visit collab0 2 ?s (Ref 4) = Inr (Ref 4, s1)"
    and g1: "get s1 (Ref 3) = Some (Call ''url'' (Ref 4))"
    and g4: "get s1 (Ref 4) = Some (Expression [Ref 5])"
    by (auto split: sum.splits prod.splits)
  from visitCall_pass_through [where v = "visit collab0 2", OF g u a g1] g4 show ?thesis
    by (simp add: get_put_other)
qed

text \<open>
  A name that has no binding in the stack and is no own property of \<open>this.functions\<close>, but
  names a function that every object inherits, is resolved by the read
  \<open>this.functions[name]\<close> of line 513 to that function, and the call is invoked as a
  builtin (lines 201 and 202), whatever the collaborators.
\<close>

lemma visitCall_inherited_member:
  assumes "get s (Ref call) = Some (Call nm args0)"
    and "lookup (stack s) nm = Undefined" and "functions_table s nm = None"
    and "Object_prototype nm = Native f"
    and "v (s\<lparr>calling := Some nm, return := True\<rparr>) args0 = Inr (args, s2)"
  shows "visitCall c v s call = invokeBuiltin c (s2\<lparr>return := return s\<rparr>) f args"
proof -
  have l: "lookupFunction c s nm = Native f"
    using assms(2-4) by (simp add: lookupFunction_def read_property_def)
  have e: "\<not> instanceof_Expression (s\<lparr>calling := Some nm\<rparr>) (Native f)"
    by (simp add: instanceof_Expression_def get_def)
  show ?thesis
    using assms(1,5) by (simp add: visitCall_def Let_def l e)
qed

text \<open>
  C7. The call \<open>toString()\<close> in a block, where no variable, no entry of the function table
  and no builtin has that name: the lookup answers \<open>Object.prototype.toString\<close>, and the
  visit of the call does not return the call. The function is applied to the arguments;
  in statement position the visit returns the null node, the call node keeps its
  arguments as they were, and what the function returned (\<open>undefined\<close> from the native
  functions of \<open>collab0\<close>; the string \<open>[object Object]\<close> in JavaScript) is appended to
  the block as a statement.
\<close>

theorem inherited_member_invoked_as_builtin:
  "lookup (stack (start tostring_nodes 3 [] False)) ''toString'' = Undefined \<and>
   functions_table (start tostring_nodes 3 [] False) ''toString'' = None \<and>
   bifs collab0 ''toString'' = None \<and>
   lookupFunction collab0 (start tostring_nodes 3 [] False) ''toString''
     = Native ''Object.prototype.toString'' \<and>
   (case visit collab0 3 (start tostring_nodes 3 [] False) (Ref 4) of
      Inl e \<Rightarrow> None
    | Inr (r, s') \<Rightarrow> Some (r, get s' (Ref 3), get s' (Ref 4)))
     = Some (Ref 0, Some (Block Undefined [Ref 4, Undefined]), Some (Call ''toString'' (Ref 5)))"
  by code_simp

subsection \<open>Required arguments\<close>

lemma bind_params_append:
  "bind_params c fn args (pre @ post) i s = (case bind_params c fn args pre i s of
      Inl e \<Rightarrow> Inl e
    | Inr (u, s') \<Rightarrow> bind_params c fn args post (i + length pre) s')"
proof (induction pre arbitrary: i s)
  case Nil
  show ?case by simp
next
  case (Cons p pre)
  show ?case
    by (simp add: Cons.IH Let_def
        split: option.splits val.splits node.splits sum.splits prod.splits)
qed

lemma bind_params_missing:
  assumes "get s args = Some a" "nodes_of a = Some as" "index as i = Undefined"
    and "get s (Ref pr) = Some (Ident nm dflt)"
    and "clone c (heap s) pr = Inr (Ref cr, h2)"
    and "get (s\<lparr>heap := h2\<rparr>) (Ref cr) = Some (Ident cnm cval)"
    and "instanceof_Null (put (s\<lparr>heap := h2\<rparr>) cr (Ident cnm dflt)) dflt"
  shows "bind_params c fn args (Ref pr # post) i s
    = Inl (Error (''argument ''
          @ toString c (heap (put (s\<lparr>heap := h2\<rparr>) cr (Ident cnm dflt))) (Ref cr)
          @ '' required for ''
          @ toString c (heap (put (s\<lparr>heap := h2\<rparr>) cr (Ident cnm dflt))) fn),
        put (s\<lparr>heap := h2\<rparr>) cr (Ident cnm dflt))"
  using assms by (simp add: Let_def)

text \<open>
  C8. In the call frame of a user-defined function (the body cloned, the frame pushed),
  let the parameters before \<open>pr\<close> be bound, let there be no positional argument for \<open>pr\<close>,
  and let its declared default be a null node. Then invokeFunction throws the error
  \<open>argument\<close> (the parameter) \<open>required for\<close> (the function), and it does so whatever the
  visit function is: the body is not visited.
\<close>

theorem invokeFunction_required_argument:
  fixes c s h1 bd bn
  defines "s4 \<equiv> push (put (snd (alloc (s\<lparr>heap := h1\<rparr>) (Block (parent_of bn) [])))
                         bd (with_parent bn (Ref (length h1))))
                   (Frame (Ref (length h1)))"
  assumes fn: "get s fn = Some (Function fname params (Ref b))"
    and body: "clone c (heap s) b = Inr (Ref bd, h1)" "get (s\<lparr>heap := h1\<rparr>) (Ref bd) = Some bn"
    and ps: "get s4 params = Some pn" "nodes_of pn = Some (pre @ Ref pr # post)"
    and pre: "bind_params c fn args pre 0 s4 = Inr ((), sj)"
    and args: "get sj args = Some a" "nodes_of a = Some as" "index as (length pre) = Undefined"
    and param: "get sj (Ref pr) = Some (Ident nm dflt)"
    and cl: "clone c (heap sj) pr = Inr (Ref cr, h2)"
      "get (sj\<lparr>heap := h2\<rparr>) (Ref cr) = Some (Ident cnm cval)"
    and null: "instanceof_Null (put (sj\<lparr>heap := h2\<rparr>) cr (Ident cnm dflt)) dflt"
  shows "invokeFunction c v s fn args
    = Inl (Error (''argument ''
          @ toString c (heap (put (sj\<lparr>heap := h2\<rparr>) cr (Ident cnm dflt))) (Ref cr)
          @ '' required for ''
          @ toString c (heap (put (sj\<lparr>heap := h2\<rparr>) cr (Ident cnm dflt))) fn),
        put (sj\<lparr>heap := h2\<rparr>) cr (Ident cnm dflt)) \<and>
    invokeFunction c v' s fn args = invokeFunction c v s fn args"
proof -
  have "bind_params c fn args (pre @ Ref pr # post) 0 s4
    = Inl (Error (''argument ''
          @ toString c (heap (put (sj\<lparr>heap := h2\<rparr>) cr (Ident cnm dflt))) (Ref cr)
          @ '' required for ''
          @ toString c (heap (put (sj\<lparr>heap := h2\<rparr>) cr (Ident cnm dflt))) fn),
        put (sj\<lparr>heap := h2\<rparr>) cr (Ident cnm dflt))"
    using pre bind_params_missing [where fn = fn and post = post, OF args(1,2) _ param cl null] args(3)
    by (simp add: bind_params_append)
  then show ?thesis
    using fn body ps unfolding s4_def
    by (simp add: invokeFunction_def Let_def alloc_def)
qed

theorem invokeFunction_required_argument_witness:
  "(case invokeFunction collab0 (visit collab0 5) (start required_nodes 3 [] False) (Ref 3) (Ref 7) of
      Inl (e, s') \<Rightarrow> message e
    | Inr x \<Rightarrow> []) = ''argument a required for foo()''"
proof -
  let ?s = "start required_nodes 3 [] False"
  let ?h1 = "heap ?s @ [mk (Block Undefined [])]"
  let ?s4 = "push (put (snd (alloc (?s\<lparr>heap := ?h1\<rparr>) (Block (parent_of (Block Undefined [])) [])))
                         8 (with_parent (Block Undefined []) (Ref (length ?h1))))
                   (Frame (Ref (length ?h1)))"
  let ?h2 = "heap ?s4 @ [mk (Ident ''a'' (Ref 0))]"
  let ?s2 = "put (?s4\<lparr>heap := ?h2\<rparr>) 10 (Ident ''a'' (Ref 0))"
  have fn: "get ?s (Ref 3) = Some (Function ''foo'' (Ref 4) (Ref 6))"
    by code_simp
  have body: "clone collab0 (heap ?s) 6 = Inr (Ref 8, ?h1)"
    "get (?s\<lparr>heap := ?h1\<rparr>) (Ref 8) = Some (Block Undefined [])"
    by code_simp+
  have ps: "get ?s4 (Ref 4) = Some (Expression [Ref 5])"
    "nodes_of (Expression [Ref 5]) = Some ([] @ Ref 5 # [])"
    by code_simp+
  have pre: "bind_params collab0 (Ref 3) (Ref 7) [] 0 ?s4 = Inr ((), ?s4)"
    by simp
  have args: "get ?s4 (Ref 7) = Some (Expression [])" "nodes_of (Expression []) = Some []"
    "index [] (length ([] :: val list)) = Undefined"
    by code_simp+
  have param: "get ?s4 (Ref 5) = Some (Ident ''a'' (Ref 0))"
    by code_simp
  have cl: "clone collab0 (heap ?s4) 5 = Inr (Ref 10, ?h2)"
    "get (?s4\<lparr>heap := ?h2\<rparr>) (Ref 10) = Some (Ident ''a'' (Ref 0))"
    by code_simp+
  have null: "instanceof_Null ?s2 (Ref 0)"
    by code_simp
  have msg: "''argument '' @ toString collab0 (heap ?s2) (Ref 10) @ '' required for ''
      @ toString collab0 (heap ?s2) (Ref 3) = ''argument a required for foo()''"
    by code_simp
  have "invokeFunction collab0 (visit collab0 5) ?s (Ref 3) (Ref 7)
      = Inl (Error (''argument '' @ toString collab0 (heap ?s2) (Ref 10) @ '' required for ''
               @ toString collab0 (heap ?s2) (Ref 3)), ?s2)"
    using invokeFunction_required_argument [where v = "visit collab0 5",
          OF fn body ps pre args param cl null] by simp
  then have "invokeFunction collab0 (visit collab0 5) ?s (Ref 3) (Ref 7)
      = Inl (Error ''argument a required for foo()'', ?s2)"
    by (simp only: msg)
  then show ?thesis
    by (simp add: Error_def)
qed

subsection \<open>The return flag is restored\<close>

lemma keeps_returnD: "keeps_return v \<Longrightarrow> v s n = Inr (r, s') \<Longrightarrow> return s' = return s"
  by (auto simp: keeps_return_def)

lemma return_alloc [simp]: "return (snd (alloc s n)) = return s"
  by (simp add: alloc_def)

lemma alloc_eq: "alloc s n = (r, s') \<Longrightarrow> return s' = return s"
  by (auto simp: alloc_def)

lemma return_push_pop [simp]: "return (push s f) = return s" "return (pop s) = return s"
  by (simp_all add: push_def pop_def)

lemma return_set_root_nodes [simp]: "return (set_root_nodes s ns) = return s"
  by (simp add: set_root_nodes_def split: val.splits option.splits)

lemma scope_add_return: "scope_add s nm x = Inr ((), s') \<Longrightarrow> return s' = return s"
  by (auto simp: scope_add_def split: list.splits)

lemma lift_return: "lift s x = Inr (r, s') \<Longrightarrow> return s' = return s"
  by (auto simp: lift_def split: sum.splits)

lemma push_node_return: "push_node s n = Inr ((), s') \<Longrightarrow> return s' = return s"
  by (auto simp: push_node_def split: list.splits val.splits option.splits)

lemma forEach_push_return: "forEach_push ns s = Inr ((), s') \<Longrightarrow> return s' = return s"
  by (induction ns arbitrary: s) (auto split: sum.splits dest: push_node_return)

lemma invoke_return: "invoke s body = Inr (r, s') \<Longrightarrow> return s' = return s"
  by (auto simp: invoke_def split: option.splits if_splits sum.splits dest: forEach_push_return)

lemma invokeBuiltin_return: "invokeBuiltin c s f args = Inr (r, s') \<Longrightarrow> return s' = return s"
  by (auto simp: invokeBuiltin_def Let_def alloc_def split: option.splits if_splits sum.splits prod.splits
      dest!: invoke_return)

lemma bind_params_return:
  "bind_params c fn args ps i s = Inr ((), s') \<Longrightarrow> return s' = return s"
proof (induction ps arbitrary: i s)
  case Nil
  then show ?case by simp
next
  case (Cons p ps)
  from Cons.prems show ?case
    by (auto simp: Let_def split: option.splits val.splits node.splits sum.splits prod.splits if_splits
        dest!: Cons.IH scope_add_return)
qed


lemma invokeFunction_return:
  assumes kv: "keeps_return v"
    and "invokeFunction c v s fn args = Inr (r, s')"
  shows "return s' = return s"
  using assms(2)
  by (auto simp: invokeFunction_def Let_def alloc_def
      split: option.splits val.splits node.splits sum.splits prod.splits
      dest!: keeps_returnD [OF kv] bind_params_return invoke_return)

lemma literalCall_return:
  assumes kv: "keeps_return v"
    and "literalCall v s call = Inr (r, s')"
  shows "return s' = return s"
  using assms(2)
  by (auto simp: literalCall_def split: option.splits node.splits sum.splits prod.splits dest!: keeps_returnD [OF kv])

lemma visitCall_return:
  assumes kv: "keeps_return v"
    and "visitCall c v s call = Inr (r, s')"
  shows "return s' = return s"
  using assms(2)
  by (auto simp: visitCall_def Let_def
      split: option.splits val.splits node.splits sum.splits prod.splits if_splits
      dest!: literalCall_return [OF kv] invokeFunction_return [OF kv] invokeBuiltin_return)


lemma visitIdent_return:
  assumes kv: "keeps_return v"
    and "visitIdent v s ident = Inr (r, s')"
  shows "return s' = return s"
  using assms(2)
  by (auto simp: visitIdent_def Let_def
      split: option.splits node.splits sum.splits prod.splits if_splits
      dest!: keeps_returnD [OF kv] scope_add_return)

lemma isDefined_return: "isDefined c s n = Inr (r, s') \<Longrightarrow> return s' = return s"
  by (auto simp: isDefined_def split: option.splits node.splits)

lemma coerce_of_return: "coerce_of c s x y = Inr (r, s') \<Longrightarrow> return s' = return s"
  by (auto simp: coerce_of_def split: val.splits dest: lift_return)

lemma operate_of_return: "operate_of c s x op y = Inr (r, s') \<Longrightarrow> return s' = return s"
  by (auto simp: operate_of_def split: val.splits dest: lift_return)

lemma visitBinOp_return:
  assumes kv: "keeps_return v"
    and "visitBinOp c v s binop = Inr (r, s')"
  shows "return s' = return s"
  using assms(2)
  by (auto simp: visitBinOp_def Let_def
      split: option.splits node.splits sum.splits prod.splits if_splits
      dest!: keeps_returnD [OF kv] isDefined_return coerce_of_return operate_of_return)

lemma visitUnaryOp_return:
  assumes kv: "keeps_return v"
    and "visitUnaryOp c v s unary = Inr (r, s')"
  shows "return s' = return s"
  using assms(2)
  by (auto simp: visitUnaryOp_def
      split: option.splits val.splits node.splits sum.splits prod.splits if_splits
      dest!: keeps_returnD [OF kv])

lemma visitTernary_return:
  assumes kv: "keeps_return v"
    and "visitTernary c v s ternary = Inr (r, s')"
  shows "return s' = return s"
  using assms(2)
  by (auto simp: visitTernary_def
      split: option.splits val.splits node.splits sum.splits prod.splits if_splits
      dest!: keeps_returnD [OF kv])

lemma visit_nodes_return:
  assumes kv: "keeps_return v"
  shows "visit_nodes v x is s = Inr ((), s') \<Longrightarrow> return s' = return s"
proof (induction "is" arbitrary: s)
  case Nil
  then show ?case by simp
next
  case (Cons i "is")
  from Cons.prems show ?case
    by (auto split: option.splits sum.splits prod.splits
        dest!: keeps_returnD [OF kv] Cons.IH)
qed

lemma visitGroup_return:
  assumes kv: "keeps_return v"
    and "visitGroup v s x = Inr (r, s')"
  shows "return s' = return s"
  using assms(2)
  by (auto simp: visitGroup_def split: option.splits sum.splits prod.splits
      dest!: visit_nodes_return [OF kv])

lemma visitExpression_return:
  assumes kv: "keeps_return v"
    and "visitExpression v s x = Inr (r, s')"
  shows "return s' = return s"
  using assms(2)
  by (auto simp: visitExpression_def split: option.splits sum.splits prod.splits
      dest!: visit_nodes_return [OF kv])

lemma visitBlock_return:
  assumes kv: "keeps_return v"
    and "visitBlock v s x = Inr (r, s')"
  shows "return s' = return s"
  using assms(2)
  by (auto simp: visitBlock_def Let_def split: option.splits sum.splits prod.splits
      dest!: visit_nodes_return [OF kv])

lemma visitRoot_loop_return:
  assumes kv: "keeps_return v"
  shows "visitRoot_loop k v x i s = Inr ((), s') \<Longrightarrow> return s' = return s"
proof (induction k arbitrary: i s)
  case 0
  then show ?case
    by (subst (asm) visitRoot_loop.simps) (auto split: option.splits if_splits)
next
  case (Suc k)
  from Suc.prems show ?case
    by (subst (asm) visitRoot_loop.simps)
      (auto split: option.splits if_splits sum.splits prod.splits
        dest!: keeps_returnD [OF kv] Suc.IH)
qed

lemma visitRoot_return:
  assumes kv: "keeps_return v"
    and "visitRoot k v s x = Inr (r, s')"
  shows "return s' = return s"
  using assms(2)
  by (auto simp: visitRoot_def split: sum.splits prod.splits
      dest!: visitRoot_loop_return [OF kv])

lemma visitSelector_return:
  assumes kv: "keeps_return v"
    and "visitSelector v s x = Inr (r, s')"
  shows "return s' = return s"
  using assms(2)
  by (auto simp: visitSelector_def split: option.splits node.splits sum.splits prod.splits
      dest!: keeps_returnD [OF kv])

lemma visitProperty_return:
  assumes kv: "keeps_return v"
    and "visitProperty v s x = Inr (r, s')"
  shows "return s' = return s"
  using assms(2)
  by (auto simp: visitProperty_def Let_def alloc_def
      split: option.splits node.splits sum.splits prod.splits if_splits
      dest!: keeps_returnD [OF kv])

lemma stylus_parse_return: "stylus_parse c s src file = Inr ((), s') \<Longrightarrow> return s' = return s"
  by (auto simp: stylus_parse_def Let_def split: option.splits sum.splits prod.splits)

lemma visitImport_return: "visitImport c s x = Inr (r, s') \<Longrightarrow> return s' = return s"
  by (auto simp: visitImport_def Let_def
      split: option.splits node.splits sum.splits prod.splits if_splits
      dest!: stylus_parse_return)

lemma dispatch_return:
  assumes kv: "keeps_return v"
    and "dispatch c k v s x = Inr (r, s')"
  shows "return s' = return s"
  using assms(2)
  by (auto simp: dispatch_def split: node.splits
      dest!: visitGroup_return [OF kv] visitSelector_return [OF kv] visitCall_return [OF kv]
        visitIdent_return [OF kv] visitBinOp_return [OF kv] visitUnaryOp_return [OF kv]
        visitTernary_return [OF kv] visitExpression_return [OF kv] visitProperty_return [OF kv]
        visitRoot_return [OF kv] visitBlock_return [OF kv] visitImport_return)

lemma keeps_return_visit: "keeps_return (visit c k)"
proof (induction k)
  case 0
  show ?case by (simp add: keeps_return_def)
next
  case (Suc k)
  show ?case
    unfolding keeps_return_def
    by (auto split: val.splits if_splits sum.splits prod.splits dest!: dispatch_return [OF Suc])
qed

lemma visitCall_resolved:
  assumes "get s (Ref call) = Some (Call nm args0)"
    and "lookupFunction c s nm = fn" and "fn \<noteq> Undefined"
    and "fn1 = (if instanceof_Expression s fn
                then (case fn of Ref r \<Rightarrow> first c (heap s) r | _ \<Rightarrow> fn) else fn)"
    and "v (s\<lparr>calling := Some nm, return := True\<rparr>) args0 = Inr (args, s2)"
  shows "visitCall c v s call = (case fn1 of
      Native f \<Rightarrow> invokeBuiltin c (s2\<lparr>return := return s\<rparr>) f args
    | _ \<Rightarrow> if instanceof_Function (s2\<lparr>return := return s\<rparr>) fn1
           then invokeFunction c v (s2\<lparr>return := return s\<rparr>) fn1 args
           else Inr (Undefined, s2\<lparr>return := return s\<rparr>))"
  using assms
  by (cases fn; cases fn1)
    (auto simp: visitCall_def Let_def instanceof_Expression_def get_def split: val.splits)

lemma visitIdent_assign_restores:
  assumes "get s (Ref ident) = Some (Ident nm val)" and "val \<noteq> nodes_null"
    and "visitIdent v s ident = Inr (r, s')"
  shows "return s' = return s"
  using assms
  by (auto simp: visitIdent_def Let_def
      split: option.splits node.splits sum.splits prod.splits dest!: scope_add_return)

lemma visitProperty_restores:
  assumes "get s (Ref pr) = Some (Property nm expr)"
    and "\<not> (instanceof_Function s (lookup (stack s) nm) \<and> calling s \<noteq> Some nm)"
    and "visitProperty v s pr = Inr (r, s')"
  shows "return s' = return s"
  using assms
  by (auto simp: visitProperty_def Let_def
      split: option.splits node.splits sum.splits prod.splits)

lemma visitBinOp_restores:
  assumes "get s (Ref binop) = Some (BinOp op left0 right0)" and "op \<noteq> ''is defined''"
    and "visitBinOp c v s binop = Inr (r, s')"
  shows "\<exists>t res. return t = return s \<and> v t res = Inr (r, s')"
  using assms
  by (fastforce simp: visitBinOp_def Let_def
      split: option.splits node.splits sum.splits prod.splits if_splits
      dest!: coerce_of_return operate_of_return)

lemma visitCall_restores:
  assumes "get s (Ref call) = Some (Call nm args0)" and "lookupFunction c s nm \<noteq> Undefined"
    and "visitCall c v s call = Inr (r, s')"
  shows "\<exists>t fn args. return t = return s \<and>
           (case fn of
              Native f \<Rightarrow> invokeBuiltin c t f args
            | _ \<Rightarrow> if instanceof_Function t fn then invokeFunction c v t fn args
                   else Inr (Undefined, t)) = Inr (r, s')"
proof -
  let ?fn = "lookupFunction c s nm"
  let ?fn1 = "if instanceof_Expression s ?fn
              then (case ?fn of Ref r \<Rightarrow> first c (heap s) r | _ \<Rightarrow> ?fn) else ?fn"
  show ?thesis
  proof (cases "v (s\<lparr>calling := Some nm, return := True\<rparr>) args0")
    case (Inl e)
    then show ?thesis
      using assms by (simp add: visitCall_def Let_def)
  next
    case (Inr x)
    then obtain args s2
      where a: "v (s\<lparr>calling := Some nm, return := True\<rparr>) args0 = Inr (args, s2)"
      by (cases x) simp
    have "visitCall c v s call = (case ?fn1 of
        Native f \<Rightarrow> invokeBuiltin c (s2\<lparr>return := return s\<rparr>) f args
      | _ \<Rightarrow> if instanceof_Function (s2\<lparr>return := return s\<rparr>) ?fn1
             then invokeFunction c v (s2\<lparr>return := return s\<rparr>) ?fn1 args
             else Inr (Undefined, s2\<lparr>return := return s\<rparr>))"
      using assms(1,2) a by (intro visitCall_resolved) simp_all
    with assms(3) have "return (s2\<lparr>return := return s\<rparr>) = return s \<and>
        (case ?fn1 of
          Native f \<Rightarrow> invokeBuiltin c (s2\<lparr>return := return s\<rparr>) f args
        | _ \<Rightarrow> if instanceof_Function (s2\<lparr>return := return s\<rparr>) ?fn1
               then invokeFunction c v (s2\<lparr>return := return s\<rparr>) ?fn1 args
               else Inr (Undefined, s2\<lparr>return := return s\<rparr>)) = Inr (r, s')"
      by simp
    then show ?thesis by blast
  qed
qed

text \<open>
  C9. A visit that completes normally leaves the return flag as it found it, for every
  node and every set of collaborators. At the four places that set the flag, and for any
  visit function, whatever it does to the flag: visitCall invokes the function in a state
  with the flag at its prior value; visitIdent, on an assignment, ends with the flag at
  its prior value; visitBinOp visits the result of the operation in a state with the flag
  at its prior value; visitProperty, on a regular property, ends with the flag at its
  prior value.
\<close>

theorem return_flag_restored:
  "(visit c k s n = Inr (r, s') \<longrightarrow> return s' = return s) \<and>
   (get s (Ref call) = Some (Call nm args0) \<and> lookupFunction c s nm \<noteq> Undefined
      \<and> visitCall c v s call = Inr (r, s')
    \<longrightarrow> (\<exists>t fn args. return t = return s \<and>
           (case fn of
              Native f \<Rightarrow> invokeBuiltin c t f args
            | _ \<Rightarrow> if instanceof_Function t fn then invokeFunction c v t fn args
                   else Inr (Undefined, t)) = Inr (r, s'))) \<and>
   (get s (Ref ident) = Some (Ident inm val) \<and> val \<noteq> nodes_null
      \<and> visitIdent v s ident = Inr (r, s')
    \<longrightarrow> return s' = return s) \<and>
   (get s (Ref binop) = Some (BinOp op left0 right0) \<and> op \<noteq> ''is defined''
      \<and> visitBinOp c v s binop = Inr (r, s')
    \<longrightarrow> (\<exists>t res. return t = return s \<and> v t res = Inr (r, s'))) \<and>
   (get s (Ref pr) = Some (Property pnm expr)
      \<and> \<not> (instanceof_Function s (lookup (stack s) pnm) \<and> calling s \<noteq> Some pnm)
      \<and> visitProperty v s pr = Inr (r, s')
    \<longrightarrow> return s' = return s)"
proof (intro conjI impI)
  assume "visit c k s n = Inr (r, s')"
  with keeps_return_visit show "return s' = return s" by (rule keeps_returnD)
next
  assume "get s (Ref call) = Some (Call nm args0) \<and> lookupFunction c s nm \<noteq> Undefined
      \<and> visitCall c v s call = Inr (r, s')"
  then show "\<exists>t fn args. return t = return s \<and>
           (case fn of
              Native f \<Rightarrow> invokeBuiltin c t f args
            | _ \<Rightarrow> if instanceof_Function t fn then invokeFunction c v t fn args
                   else Inr (Undefined, t)) = Inr (r, s')"
    using visitCall_restores [of s call nm args0 c v r s'] by simp
next
  assume "get s (Ref ident) = Some (Ident inm val) \<and> val \<noteq> nodes_null
      \<and> visitIdent v s ident = Inr (r, s')"
  then show "return s' = return s"
    using visitIdent_assign_restores [of s ident inm val v r s'] by simp
next
  assume "get s (Ref binop) = Some (BinOp op left0 right0) \<and> op \<noteq> ''is defined''
      \<and> visitBinOp c v s binop = Inr (r, s')"
  then show "\<exists>t res. return t = return s \<and> v t res = Inr (r, s')"
    using visitBinOp_restores [of s binop op left0 right0 c v r s'] by simp
next
  assume "get s (Ref pr) = Some (Property pnm expr)
      \<and> \<not> (instanceof_Function s (lookup (stack s) pnm) \<and> calling s \<noteq> Some pnm)
      \<and> visitProperty v s pr = Inr (r, s')"
  then show "return s' = return s"
    using visitProperty_restores [of s pr pnm expr v r s'] by simp
qed

theorem return_flag_restored_witness:
  "(case visit collab0 9 (start mixin_nodes 7 [(''foo'', Ref 3)] False) (Ref 7) of
      Inl e \<Rightarrow> None | Inr (r, s') \<Rightarrow> Some (return s')) = Some False \<and>
   (\<exists>r s' t fn args.
      visitCall collab0 (visit collab0 9) (start mixin_nodes 7 [(''foo'', Ref 3)] False) 8
        = Inr (r, s') \<and> return t = False \<and>
      (case fn of
         Native f \<Rightarrow> invokeBuiltin collab0 t f args
       | _ \<Rightarrow> if instanceof_Function t fn
              then invokeFunction collab0 (visit collab0 9) t fn args
              else Inr (Undefined, t)) = Inr (r, s')) \<and>
   (case visitIdent sets_return (start ternary_nodes 3 [] False) 4 of
      Inl e \<Rightarrow> None | Inr (r, s') \<Rightarrow> Some (return s')) = Some False \<and>
   (\<exists>r s' t res.
      visitBinOp collab0 (visit collab0 1) (start binop_nodes 3 [] False) 3 = Inr (r, s') \<and>
      return t = False \<and> visit collab0 1 t res = Inr (r, s')) \<and>
   (case visitProperty sets_return (start property_nodes 3 [] False) 3 of
      Inl e \<Rightarrow> None | Inr (r, s') \<Rightarrow> Some (return s')) = Some False"
proof -
  let ?m = "start mixin_nodes 7 [(''foo'', Ref 3)] False"
  let ?t = "start ternary_nodes 3 [] False"
  let ?b = "start binop_nodes 3 [] False"
  let ?p = "start property_nodes 3 [] False"
  have A: "(case visit collab0 9 ?m (Ref 7) of
      Inl e \<Rightarrow> None | Inr (r, s') \<Rightarrow> Some (return s')) = Some False"
  proof -
    have "\<not> isl (visit collab0 9 ?m (Ref 7))" by code_simp
    then obtain r s' where v: "visit collab0 9 ?m (Ref 7) = Inr (r, s')"
      by (cases "visit collab0 9 ?m (Ref 7)") auto
    have "return ?m = False" by code_simp
    with return_flag_restored [where c = collab0 and k = 9 and s = ?m and n = "Ref 7"
        and r = r and s' = s'] v
    show ?thesis by simp
  qed
  have B: "\<exists>r s' t fn args.
      visitCall collab0 (visit collab0 9) ?m 8 = Inr (r, s') \<and> return t = False \<and>
      (case fn of
         Native f \<Rightarrow> invokeBuiltin collab0 t f args
       | _ \<Rightarrow> if instanceof_Function t fn
              then invokeFunction collab0 (visit collab0 9) t fn args
              else Inr (Undefined, t)) = Inr (r, s')"
  proof -
    have "\<not> isl (visitCall collab0 (visit collab0 9) ?m 8)" by code_simp
    then obtain r s' where v: "visitCall collab0 (visit collab0 9) ?m 8 = Inr (r, s')"
      by (cases "visitCall collab0 (visit collab0 9) ?m 8") auto
    have g: "get ?m (Ref 8) = Some (Call ''foo'' (Ref 9))"
      and l: "lookupFunction collab0 ?m ''foo'' \<noteq> Undefined"
      and f: "return ?m = False"
      by code_simp+
    from return_flag_restored [where c = collab0 and v = "visit collab0 9" and s = ?m
        and call = 8 and nm = "''foo''" and ?args0.0 = "Ref 9" and r = r and s' = s'] v g l f
    show ?thesis by auto
  qed
  have C: "(case visitIdent sets_return ?t 4 of
      Inl e \<Rightarrow> None | Inr (r, s') \<Rightarrow> Some (return s')) = Some False"
  proof -
    have "\<not> isl (visitIdent sets_return ?t 4)" by code_simp
    then obtain r s' where v: "visitIdent sets_return ?t 4 = Inr (r, s')"
      by (cases "visitIdent sets_return ?t 4") auto
    have g: "get ?t (Ref 4) = Some (Ident ''a'' (Ref 6))" and n: "Ref 6 \<noteq> nodes_null"
      and f: "return ?t = False"
      by code_simp+
    from return_flag_restored [where v = sets_return and s = ?t and ident = 4
        and inm = "''a''" and val = "Ref 6" and r = r and s' = s'] v g n f
    show ?thesis by simp
  qed
  have D: "\<exists>r s' t res.
      visitBinOp collab0 (visit collab0 1) ?b 3 = Inr (r, s') \<and>
      return t = False \<and> visit collab0 1 t res = Inr (r, s')"
  proof -
    have "\<not> isl (visitBinOp collab0 (visit collab0 1) ?b 3)" by code_simp
    then obtain r s' where v: "visitBinOp collab0 (visit collab0 1) ?b 3 = Inr (r, s')"
      by (cases "visitBinOp collab0 (visit collab0 1) ?b 3") auto
    have g: "get ?b (Ref 3) = Some (BinOp ''+'' (Ref 4) (Ref 5))"
      and n: "''+'' \<noteq> ''is defined''" and f: "return ?b = False"
      by code_simp+
    from return_flag_restored [where c = collab0 and v = "visit collab0 1" and s = ?b
        and binop = 3 and op = "''+''" and ?left0.0 = "Ref 4" and ?right0.0 = "Ref 5"
        and r = r and s' = s'] v g n f
    show ?thesis by auto
  qed
  have E: "(case visitProperty sets_return ?p 3 of
      Inl e \<Rightarrow> None | Inr (r, s') \<Rightarrow> Some (return s')) = Some False"
  proof -
    have "\<not> isl (visitProperty sets_return ?p 3)" by code_simp
    then obtain r s' where v: "visitProperty sets_return ?p 3 = Inr (r, s')"
      by (cases "visitProperty sets_return ?p 3") auto
    have g: "get ?p (Ref 3) = Some (Property ''width'' (Ref 4))"
      and n: "\<not> (instanceof_Function ?p (lookup (stack ?p) ''width'') \<and> calling ?p \<noteq> Some ''width'')"
      and f: "return ?p = False"
      by code_simp+
    from return_flag_restored [where v = sets_return and s = ?p and pr = 3
        and pnm = "''width''" and expr = "Ref 4" and r = r and s' = s'] v g n f
    show ?thesis by simp
  qed
  from A B C D E show ?thesis by blast
qed

subsection \<open>Calls of values that are not functions\<close>

text \<open>
  C10. When the name of a call resolves to a value that, once an expression is unwrapped
  to its first node, is neither a native function nor a function definition, and the
  visit of the arguments completes, visitCall returns \<open>undefined\<close>: no node, no error, and
  not the call itself.
\<close>

theorem visitCall_not_callable:
  fixes c s fn
  defines "fn1 \<equiv> (if instanceof_Expression s fn
                then (case fn of Ref r \<Rightarrow> first c (heap s) r | _ \<Rightarrow> fn) else fn)"
  assumes call: "get s (Ref call) = Some (Call nm args0)"
    and fn: "lookupFunction c s nm = fn" "fn \<noteq> Undefined"
    and nat: "\<forall>f. fn1 \<noteq> Native f"
    and args: "v (s\<lparr>calling := Some nm, return := True\<rparr>) args0 = Inr (args, s2)"
    and nofn: "\<not> instanceof_Function s2 fn1"
  shows "visitCall c v s call = Inr (Undefined, s2\<lparr>return := return s\<rparr>)"
proof -
  have f: "instanceof_Function (s2\<lparr>return := return s\<rparr>) fn1 = instanceof_Function s2 fn1"
    by (simp add: instanceof_Function_def)
  have d: "fn1 = (if instanceof_Expression s fn
                then (case fn of Ref r \<Rightarrow> first c (heap s) r | _ \<Rightarrow> fn) else fn)"
    by (simp add: fn1_def)
  show ?thesis
    using visitCall_resolved [where v = v, OF call fn d args] nat nofn f
    by (cases fn1) simp_all
qed

theorem visitCall_not_callable_witness:
  "(case visitCall collab0 (visit collab0 2) (start value_call_nodes 3 [(''a'', Ref 5)] True) 3 of
      Inl e \<Rightarrow> None
    | Inr (r, s') \<Rightarrow> Some (r, return s')) = Some (Undefined, True)"
proof -
  let ?s = "start value_call_nodes 3 [(''a'', Ref 5)] True"
  have g: "get ?s (Ref 3) = Some (Call ''a'' (Ref 4))"
    by code_simp
  have fn: "lookupFunction collab0 ?s ''a'' = Ref 5" "Ref 5 \<noteq> Undefined"
    by code_simp+
  have f1: "(if instanceof_Expression ?s (Ref 5)
                then (case Ref 5 of Ref r \<Rightarrow> first collab0 (heap ?s) r | _ \<Rightarrow> Ref 5)
                else Ref 5) = Ref 6"
    by code_simp
  have "(case visit collab0 2 (?s\<lparr>calling := Some ''a'', return := True\<rparr>) (Ref 4) of
          Inl e \<Rightarrow> None
        | Inr (args, s2) \<Rightarrow> Some (instanceof_Function s2 (Ref 6))) = Some False"
    by code_simp
  then obtain args s2
    where a: "visit collab0 2 (?s\<lparr>calling := Some ''a'', return := True\<rparr>) (Ref 4) = Inr (args, s2)"
      and nf: "\<not> instanceof_Function s2 (Ref 6)"
    by (auto split: sum.splits prod.splits)
  have r: "return ?s" by code_simp
  from visitCall_not_callable [where v = "visit collab0 2", OF g fn _ a] f1 nf r show ?thesis
    by simp
qed

end
